theory Spec2Isabelle
  imports Main "HOL-Library.Word"
begin

section \<open>The webauth token handler (exp/services/webauth/internal/serve/token.go)\<close>

text \<open>
  The handler \<^verbatim>\<open>tokenHandler.ServeHTTP\<close> receives a SEP-10 challenge transaction,
  finds the server signing address the challenge was built for, looks the client
  account up on the ledger, verifies the client signatures and answers with a signed
  JWT. Everything it calls outside its own body (request decoding, the txnbuild
  functions, the aurora client, the JOSE signer) is a parameter of the model: the
  record \<open>collaborators\<close> holds one function per call site. One value of that record
  stands for the behaviour of the outside world during one request. Logging calls are
  left out, they return nothing the handler reads.
\<close>

subsection \<open>Data\<close>

type_synonym error = string

text \<open>\<^verbatim>\<open>txnbuild.Timebounds\<close> and the part of \<^verbatim>\<open>txnbuild.Transaction\<close> the handler reads
  through \<^verbatim>\<open>tx.Timebounds()\<close> and \<^verbatim>\<open>tx.Signatures()\<close>. Go's \<^verbatim>\<open>int64\<close> is modelled as
  \<open>int\<close>; the handler itself does no arithmetic on these fields.\<close>

record txnbuild_Timebounds =
  MinTime :: int
  MaxTime :: int

record txnbuild_Transaction =
  Timebounds :: txnbuild_Timebounds
  Signatures :: "string list"

text \<open>The account as the aurora client returns it: thresholds are bytes, and
  \<^verbatim>\<open>SignerSummary()\<close> is a Go map from signer key to weight (\<^verbatim>\<open>int32\<close>), here an
  association list.\<close>

record AccountThresholds =
  LowThreshold :: "8 word"
  MedThreshold :: "8 word"
  HighThreshold :: "8 word"

record Account =
  Thresholds :: AccountThresholds
  SignerSummary :: "(string \<times> int) list"

record JSONWebKey =
  Algorithm :: string
  Key :: string

type_synonym Signer = string

text \<open>\<^verbatim>\<open>jwt.Claims\<close>: the four fields the handler sets; a \<^verbatim>\<open>*NumericDate\<close> is a
  number of seconds or nil.\<close>

record Claims =
  Issuer :: string
  Subject :: string
  IssuedAt :: "int option"
  Expiry :: "int option"

text \<open>The fields of \<^verbatim>\<open>tokenHandler\<close> that hold configuration; \<^verbatim>\<open>Logger\<close> and \<^verbatim>\<open>AuroraClient\<close>
  are collaborators. A signing address is kept as the string its \<^verbatim>\<open>Address()\<close> returns,
  a \<^verbatim>\<open>time.Duration\<close> as its number of nanoseconds.\<close>

record tokenHandler =
  NetworkPassphrase :: string
  SigningAddresses :: "string list"
  JWK :: JSONWebKey
  JWTIssuer :: string
  JWTExpiresIn :: int
  AllowAccountsThatDoNotExist :: bool
  Domain' :: string
  HomeDomains :: "string list"

record tokenRequest =
  Transaction :: string

record tokenResponse =
  Token :: string

type_synonym request = string

text \<open>What the handler renders: one of the three problems \<^verbatim>\<open>badRequest\<close>,
  \<^verbatim>\<open>unauthorized\<close> and \<^verbatim>\<open>serverError\<close>, or the token response as JSON (\<open>ok\<close>, line 160).
  \<open>panic\<close> stands for the nil dereference that \<^verbatim>\<open>tx.HashHex\<close> raises on a nil
  \<^verbatim>\<open>*txnbuild.Transaction\<close>.\<close>

datatype response =
    badRequest
  | unauthorized
  | serverError
  | ok tokenResponse
  | panic

text \<open>The four results of \<^verbatim>\<open>txnbuild.ReadChallengeTx\<close>, as Go returns them: a pointer
  that may be nil, two strings and an error that may be nil.\<close>

record ReadChallengeTx_result =
  rc_tx :: "txnbuild_Transaction option"
  rc_clientAccountID :: string
  rc_homeDomain :: string
  rc_err :: "error option"

record collaborators =
  Decode :: "request \<Rightarrow> error + tokenRequest"
  ReadChallengeTx :: "string \<Rightarrow> string \<Rightarrow> string \<Rightarrow> string \<Rightarrow> string list \<Rightarrow> ReadChallengeTx_result"
  HashHex :: "txnbuild_Transaction \<Rightarrow> string \<Rightarrow> error + string"
  AccountDetail :: "string \<Rightarrow> error + Account"
  IsNotFoundError :: "error \<Rightarrow> bool"
  VerifyChallengeTxThreshold ::
    "string \<Rightarrow> string \<Rightarrow> string \<Rightarrow> string \<Rightarrow> string list \<Rightarrow> 8 word \<Rightarrow> (string \<times> int) list \<Rightarrow> error + string list"
  VerifyChallengeTxSigners ::
    "string \<Rightarrow> string \<Rightarrow> string \<Rightarrow> string \<Rightarrow> string list \<Rightarrow> string list \<Rightarrow> error + string list"
  NewSigner :: "JSONWebKey \<Rightarrow> error + Signer"
  CompactSerialize :: "Signer \<Rightarrow> Claims \<Rightarrow> error + string"

text \<open>The calls the handler makes to its collaborators, with their arguments, in the
  order it makes them.\<close>

datatype call =
    Call_ReadChallengeTx string string string string "string list"
  | Call_HashHex txnbuild_Transaction string
  | Call_AccountDetail string
  | Call_VerifyChallengeTxThreshold string string string string "string list" "8 word" "(string \<times> int) list"
  | Call_VerifyChallengeTxSigners string string string string "string list" "string list"
  | Call_NewSigner JSONWebKey
  | Call_CompactSerialize Signer Claims

subsection \<open>The time and JWT library functions the handler calls\<close>

text \<open>Go's \<^verbatim>\<open>/\<close> and \<^verbatim>\<open>%\<close> on integers truncate towards zero.\<close>

definition quot :: "int \<Rightarrow> int \<Rightarrow> int" where
  "quot a b = sgn a * sgn b * (\<bar>a\<bar> div \<bar>b\<bar>)"

definition rem :: "int \<Rightarrow> int \<Rightarrow> int" where
  "rem a b = a - b * quot a b"

text \<open>A \<^verbatim>\<open>time.Time\<close> without monotonic clock reading and location: seconds since the
  Unix epoch and nanoseconds within the second. Go stores the seconds since year 1
  in an \<^verbatim>\<open>int64\<close>; the offset between the two is \<open>unixToInternal\<close>. The model keeps
  the seconds as \<open>int\<close>, and the theorem that reads a sum of seconds assumes
  \<open>no_overflow\<close> (defined below): the minimum time bound, the duration, the two
  internal second counts and the seconds that \<^verbatim>\<open>t.Unix()\<close> returns fit Go's \<^verbatim>\<open>int64\<close>.\<close>

record Time =
  unixSec :: int
  nsec :: int

definition unixToInternal :: int where
  "unixToInternal = 62135596800"

text \<open>\<^verbatim>\<open>time.Unix(sec, nsec)\<close>: nanoseconds outside \<open>[0, 1e9)\<close> are carried into the
  seconds.\<close>

definition Unix :: "int \<Rightarrow> int \<Rightarrow> Time" where
  "Unix s n =
     (if n < 0 \<or> n \<ge> 1000000000 then
        (let q = quot n 1000000000;
             s1 = s + q;
             n1 = n - q * 1000000000
         in if n1 < 0 then \<lparr>unixSec = s1 - 1, nsec = n1 + 1000000000\<rparr>
            else \<lparr>unixSec = s1, nsec = n1\<rparr>)
      else \<lparr>unixSec = s, nsec = n\<rparr>)"

text \<open>\<^verbatim>\<open>t.Add(d)\<close> for a duration \<open>d\<close> in nanoseconds.\<close>

definition Add :: "Time \<Rightarrow> int \<Rightarrow> Time" where
  "Add t d =
     (let dsec = quot d 1000000000;
          n = nsec t + rem d 1000000000
      in if n \<ge> 1000000000 then \<lparr>unixSec = unixSec t + (dsec + 1), nsec = n - 1000000000\<rparr>
         else if n < 0 then \<lparr>unixSec = unixSec t + (dsec - 1), nsec = n + 1000000000\<rparr>
         else \<lparr>unixSec = unixSec t + dsec, nsec = n\<rparr>)"

text \<open>\<^verbatim>\<open>t.IsZero()\<close>: the instant January 1, year 1, 00:00:00 UTC.\<close>

definition IsZero :: "Time \<Rightarrow> bool" where
  "IsZero t = (unixSec t + unixToInternal = 0 \<and> nsec t = 0)"

text \<open>\<^verbatim>\<open>jwt.NewNumericDate(t)\<close>: nil for the zero time, otherwise \<^verbatim>\<open>t.Unix()\<close>, the whole
  seconds since the epoch.\<close>

definition NewNumericDate :: "Time \<Rightarrow> int option" where
  "NewNumericDate t = (if IsZero t then None else Some (unixSec t))"

definition int64 :: "int \<Rightarrow> bool" where
  "int64 x = (- (2 ^ 63) \<le> x \<and> x < 2 ^ 63)"

definition no_overflow :: "int \<Rightarrow> int \<Rightarrow> bool" where
  "no_overflow minTime d =
     (int64 minTime \<and> int64 d \<and> int64 (minTime + unixToInternal)
      \<and> int64 (minTime + unixToInternal + d div 1000000000)
      \<and> int64 (minTime + d div 1000000000))"

subsection \<open>ServeHTTP\<close>

text \<open>The variables declared before the loop (lines 50-55) together with \<^verbatim>\<open>err\<close>.\<close>

record vars =
  tx :: "txnbuild_Transaction option"
  clientAccountID :: string
  signingAddress :: "string option"
  homeDomain :: string
  err :: "error option"

definition vars0 :: vars where
  "vars0 = \<lparr>tx = None, clientAccountID = [], signingAddress = None, homeDomain = [], err = None\<rparr>"

text \<open>The loop of lines 56-62 over \<^verbatim>\<open>h.SigningAddresses\<close>: every iteration overwrites
  \<^verbatim>\<open>tx\<close>, \<^verbatim>\<open>clientAccountID\<close>, \<^verbatim>\<open>homeDomain\<close> and \<^verbatim>\<open>err\<close>; the first one without error
  sets \<^verbatim>\<open>signingAddress\<close> and breaks.\<close>

fun range_SigningAddresses ::
  "collaborators \<Rightarrow> tokenHandler \<Rightarrow> tokenRequest \<Rightarrow> string list \<Rightarrow> vars \<times> call list \<Rightarrow> vars \<times> call list"
where
  "range_SigningAddresses env h req [] (v, cs) = (v, cs)"
| "range_SigningAddresses env h req (s # ss) (v, cs) =
     (let res = ReadChallengeTx env (Transaction req) s (NetworkPassphrase h) (Domain' h) (HomeDomains h);
          v' = v\<lparr>tx := rc_tx res, clientAccountID := rc_clientAccountID res,
                 homeDomain := rc_homeDomain res, err := rc_err res\<rparr>;
          cs' = cs @ [Call_ReadChallengeTx (Transaction req) s (NetworkPassphrase h) (Domain' h) (HomeDomains h)]
      in if err v' = None then (v'\<lparr>signingAddress := Some s\<rparr>, cs')
         else range_SigningAddresses env h req ss (v', cs'))"

text \<open>Lines 87-100: the account lookup. \<open>Inr (Some a)\<close> is \<^verbatim>\<open>clientAccountExists = true\<close>
  with the account \<open>a\<close>, \<open>Inr None\<close> is \<^verbatim>\<open>clientAccountExists = false\<close>, \<open>Inl serverError\<close>
  is the early return of the default case.\<close>

definition lookupAccount :: "collaborators \<Rightarrow> string \<Rightarrow> response + Account option" where
  "lookupAccount env accountID =
     (case AccountDetail env accountID of
        Inr clientAccount \<Rightarrow> Inr (Some clientAccount)
      | Inl e \<Rightarrow> if IsNotFoundError env e then Inr None else Inl serverError)"

text \<open>Lines 102-128: the verification. The result is the response of an early return
  or \<^verbatim>\<open>signersVerified\<close>, and the calls made so far. The conversion
  \<^verbatim>\<open>txnbuild.Threshold(...)\<close> of line 104 keeps the byte.\<close>

definition verifySigners ::
  "collaborators \<Rightarrow> tokenHandler \<Rightarrow> tokenRequest \<Rightarrow> string \<Rightarrow> string \<Rightarrow> Account option
     \<Rightarrow> call list \<Rightarrow> (response + string list) \<times> call list" where
  "verifySigners env h req s accountID found cs =
     (case found of
        Some clientAccount \<Rightarrow>
          (let requiredThreshold = HighThreshold (Thresholds clientAccount);
               clientSignerSummary = SignerSummary clientAccount;
               cs' = cs @ [Call_VerifyChallengeTxThreshold (Transaction req) s (NetworkPassphrase h)
                             (Domain' h) (HomeDomains h) requiredThreshold clientSignerSummary]
           in case VerifyChallengeTxThreshold env (Transaction req) s (NetworkPassphrase h)
                     (Domain' h) (HomeDomains h) requiredThreshold clientSignerSummary of
                Inl e \<Rightarrow> (Inl unauthorized, cs')
              | Inr signersVerified \<Rightarrow> (Inr signersVerified, cs'))
      | None \<Rightarrow>
          if \<not> AllowAccountsThatDoNotExist h then (Inl unauthorized, cs)
          else
            (let cs' = cs @ [Call_VerifyChallengeTxSigners (Transaction req) s (NetworkPassphrase h)
                               (Domain' h) (HomeDomains h) [accountID]]
             in case VerifyChallengeTxSigners env (Transaction req) s (NetworkPassphrase h)
                       (Domain' h) (HomeDomains h) [accountID] of
                  Inl e \<Rightarrow> (Inl unauthorized, cs')
                | Inr signersVerified \<Rightarrow> (Inr signersVerified, cs')))"

text \<open>Lines 143-149: the claims of the token.\<close>

definition tokenClaims :: "tokenHandler \<Rightarrow> txnbuild_Transaction \<Rightarrow> string \<Rightarrow> Claims" where
  "tokenClaims h t accountID =
     (let issuedAt = Unix (MinTime (Timebounds t)) 0
      in \<lparr>Issuer = JWTIssuer h,
          Subject = accountID,
          IssuedAt = NewNumericDate issuedAt,
          Expiry = NewNumericDate (Add issuedAt (JWTExpiresIn h))\<rparr>)"

text \<open>Lines 134-160: the signer is built, the claims are signed and serialized, the
  token is rendered.\<close>

definition issueToken ::
  "collaborators \<Rightarrow> tokenHandler \<Rightarrow> txnbuild_Transaction \<Rightarrow> string \<Rightarrow> call list
     \<Rightarrow> response \<times> call list" where
  "issueToken env h t accountID cs =
     (case NewSigner env (JWK h) of
        Inl e \<Rightarrow> (serverError, cs @ [Call_NewSigner (JWK h)])
      | Inr jws \<Rightarrow>
          (let claims = tokenClaims h t accountID;
               cs' = cs @ [Call_NewSigner (JWK h), Call_CompactSerialize jws claims]
           in case CompactSerialize env jws claims of
                Inl e \<Rightarrow> (serverError, cs')
              | Inr tokenStr \<Rightarrow> (ok \<lparr>Token = tokenStr\<rparr>, cs')))"

text \<open>Lines 87-161: the account lookup, the verification and the token, for the
  signing address \<open>s\<close>, the parsed transaction \<open>t\<close> and the client account identifier;
  \<open>cs2\<close> are the calls made so far, the lookup included.\<close>

definition fromLookup ::
  "collaborators \<Rightarrow> tokenHandler \<Rightarrow> tokenRequest \<Rightarrow> string \<Rightarrow> txnbuild_Transaction \<Rightarrow> string
     \<Rightarrow> call list \<Rightarrow> response \<times> call list" where
  "fromLookup env h req s t accountID cs2 =
     (case lookupAccount env accountID of
        Inl resp \<Rightarrow> (resp, cs2)
      | Inr found \<Rightarrow>
          (case verifySigners env h req s accountID found cs2 of
             (Inl resp, cs3) \<Rightarrow> (resp, cs3)
           | (Inr signersVerified, cs3) \<Rightarrow> issueToken env h t accountID cs3))"

text \<open>Lines 63-86: what the handler does with the variables the loop leaves behind and
  the calls \<open>cs0\<close> the loop made. A nil \<^verbatim>\<open>signingAddress\<close> and an empty \<^verbatim>\<open>homeDomain\<close> are
  bad requests; then the transaction is hashed, which dereferences \<^verbatim>\<open>tx\<close>.\<close>

definition afterLoop ::
  "collaborators \<Rightarrow> tokenHandler \<Rightarrow> tokenRequest \<Rightarrow> vars \<Rightarrow> call list \<Rightarrow> response \<times> call list" where
  "afterLoop env h req v cs0 =
     (case signingAddress v of
        None \<Rightarrow> (badRequest, cs0)
      | Some s \<Rightarrow>
          if homeDomain v = [] then (badRequest, cs0)
          else
            (case tx v of
               None \<Rightarrow> (panic, cs0)
             | Some t \<Rightarrow>
                 (case HashHex env t (NetworkPassphrase h) of
                    Inl e \<Rightarrow> (serverError, cs0 @ [Call_HashHex t (NetworkPassphrase h)])
                  | Inr hash \<Rightarrow>
                      fromLookup env h req s t (clientAccountID v)
                        (cs0 @ [Call_HashHex t (NetworkPassphrase h),
                                Call_AccountDetail (clientAccountID v)]))))"

text \<open>The handler, lines 39-161: the request is decoded, the loop runs from the
  variables' zero values, the rest follows. The result is the response rendered and
  the calls made, in order.\<close>

definition ServeHTTP :: "collaborators \<Rightarrow> tokenHandler \<Rightarrow> request \<Rightarrow> response \<times> call list" where
  "ServeHTTP env h r =
     (case Decode env r of
        Inl e \<Rightarrow> (badRequest, [])
      | Inr req \<Rightarrow>
          (case range_SigningAddresses env h req (SigningAddresses h) (vars0, []) of
             (v, cs0) \<Rightarrow> afterLoop env h req v cs0))"

subsection \<open>Notions used in the statements\<close>

text \<open>Whether the challenge of the request validates against the signing address \<open>s\<close>,
  and what \<^verbatim>\<open>txnbuild.ReadChallengeTx\<close> returns for it.\<close>

definition parsed :: "collaborators \<Rightarrow> tokenHandler \<Rightarrow> tokenRequest \<Rightarrow> string \<Rightarrow> ReadChallengeTx_result" where
  "parsed env h req s =
     ReadChallengeTx env (Transaction req) s (NetworkPassphrase h) (Domain' h) (HomeDomains h)"

definition validates :: "collaborators \<Rightarrow> tokenHandler \<Rightarrow> tokenRequest \<Rightarrow> string \<Rightarrow> bool" where
  "validates env h req s = (rc_err (parsed env h req s) = None)"

definition probe :: "tokenHandler \<Rightarrow> tokenRequest \<Rightarrow> string \<Rightarrow> call" where
  "probe h req s =
     Call_ReadChallengeTx (Transaction req) s (NetworkPassphrase h) (Domain' h) (HomeDomains h)"

text \<open>The claims that were handed to the signer during a run, and whether the token of a
  response is the serialization of the claims \<open>c\<close> made in that run.\<close>

fun signedClaims :: "call list \<Rightarrow> Claims list" where
  "signedClaims [] = []"
| "signedClaims (Call_CompactSerialize jws c # cs) = c # signedClaims cs"
| "signedClaims (_ # cs) = signedClaims cs"

fun newSignerCalls :: "call list \<Rightarrow> JSONWebKey list" where
  "newSignerCalls [] = []"
| "newSignerCalls (Call_NewSigner k # cs) = k # newSignerCalls cs"
| "newSignerCalls (_ # cs) = newSignerCalls cs"

fun serializes :: "collaborators \<Rightarrow> string \<Rightarrow> Claims \<Rightarrow> call \<Rightarrow> bool" where
  "serializes env tok c (Call_CompactSerialize jws c') = (c' = c \<and> CompactSerialize env jws c = Inr tok)"
| "serializes env tok c _ = False"

definition carries :: "collaborators \<Rightarrow> call list \<Rightarrow> tokenResponse \<Rightarrow> Claims \<Rightarrow> bool" where
  "carries env cs res c = list_ex (serializes env (Token res) c) cs"

fun isToken :: "response \<Rightarrow> bool" where
  "isToken (ok res) = True"
| "isToken _ = False"

text \<open>Whether the signer can be built from the key of the handler and the claims for the
  transaction \<open>t\<close> and the account \<open>a\<close> can be signed and serialized with it.\<close>

definition signingSucceeds ::
  "collaborators \<Rightarrow> tokenHandler \<Rightarrow> txnbuild_Transaction \<Rightarrow> string \<Rightarrow> bool" where
  "signingSucceeds env h t a =
     (case NewSigner env (JWK h) of
        Inl e \<Rightarrow> False
      | Inr jws \<Rightarrow> \<not> isl (CompactSerialize env jws (tokenClaims h t a)))"

text \<open>Two behaviours of the outside world that differ at most in the bytes the signer
  produces: the request decodes alike, the challenge parses and verifies alike (it is
  still within its time bounds), the ledger answers alike, the signer is built alike and
  signs the same claims or fails on the same claims.\<close>

definition sameButSignatureBytes :: "collaborators \<Rightarrow> collaborators \<Rightarrow> bool" where
  "sameButSignatureBytes env1 env2 =
     (Decode env2 = Decode env1 \<and> ReadChallengeTx env2 = ReadChallengeTx env1
      \<and> HashHex env2 = HashHex env1 \<and> AccountDetail env2 = AccountDetail env1
      \<and> IsNotFoundError env2 = IsNotFoundError env1
      \<and> VerifyChallengeTxThreshold env2 = VerifyChallengeTxThreshold env1
      \<and> VerifyChallengeTxSigners env2 = VerifyChallengeTxSigners env1
      \<and> NewSigner env2 = NewSigner env1
      \<and> (\<forall>jws c. isl (CompactSerialize env2 jws c) = isl (CompactSerialize env1 jws c)))"

text \<open>Whether a call made after the loop works with the signing address \<open>s\<close> and with what
  \<^verbatim>\<open>txnbuild.ReadChallengeTx\<close> returned for it; a further \<^verbatim>\<open>ReadChallengeTx\<close> does not.\<close>

fun usesSelection :: "string \<Rightarrow> ReadChallengeTx_result \<Rightarrow> call \<Rightarrow> bool" where
  "usesSelection s res (Call_ReadChallengeTx raw a np d hs) = False"
| "usesSelection s res (Call_HashHex t np) = (rc_tx res = Some t)"
| "usesSelection s res (Call_AccountDetail a) = (a = rc_clientAccountID res)"
| "usesSelection s res (Call_VerifyChallengeTxThreshold raw a np d hs T ss) = (a = s)"
| "usesSelection s res (Call_VerifyChallengeTxSigners raw a np d hs ks) =
     (a = s \<and> ks = [rc_clientAccountID res])"
| "usesSelection s res (Call_NewSigner k) = True"
| "usesSelection s res (Call_CompactSerialize jws c) = (Subject c = rc_clientAccountID res)"

fun isProbe :: "call \<Rightarrow> bool" where
  "isProbe (Call_ReadChallengeTx raw a np d hs) = True"
| "isProbe _ = False"

fun isVerification :: "call \<Rightarrow> bool" where
  "isVerification (Call_VerifyChallengeTxThreshold raw a np d hs T ss) = True"
| "isVerification (Call_VerifyChallengeTxSigners raw a np d hs ks) = True"
| "isVerification _ = False"

text \<open>The stage of the handler a call belongs to.\<close>

fun stage :: "call \<Rightarrow> nat" where
  "stage (Call_ReadChallengeTx raw a np d hs) = 0"
| "stage (Call_HashHex t np) = 1"
| "stage (Call_AccountDetail a) = 2"
| "stage (Call_VerifyChallengeTxThreshold raw a np d hs T ss) = 3"
| "stage (Call_VerifyChallengeTxSigners raw a np d hs ks) = 3"
| "stage (Call_NewSigner k) = 4"
| "stage (Call_CompactSerialize jws c) = 5"

subsection \<open>The verification functions of txnbuild, from the specification\<close>

text \<open>Modelled from the spec: \<^verbatim>\<open>txnbuild.VerifyChallengeTxThreshold\<close> is called by the
  handler, its source is not among the files. Section 4.3 of the specification: every
  signature of the challenge is validated against the signer table; duplicate signatures
  of one signer do not count twice; the weights of the distinct valid signers are
  summed; a sum below the required threshold fails with \<^verbatim>\<open>ThresholdNotMet\<close>; on success
  the signers that contributed are returned. Section 8: verification must fail for sums
  strictly less than the threshold and for any signature that does not correspond to a
  known signer. Section 3: the set of signers a successful verification returns is not
  empty. Where section 4.3 says of a signature of no known signer only that it does
  not count, section 8 is followed: the call fails. The signature check itself is the
  parameter \<open>valid\<close>: \<open>valid c sg k\<close> says that \<open>sg\<close> is a signature of the challenge \<open>c\<close>
  by the key \<open>k\<close>. The signer table is a Go map; in the association list the first
  entry of a key is the one that counts.\<close>

definition weight :: "(string \<times> int) list \<Rightarrow> string \<Rightarrow> int" where
  "weight signers k = (case map_of signers k of Some w \<Rightarrow> w | None \<Rightarrow> 0)"

text \<open>The distinct signers of the table that signed the challenge, and their weight.\<close>

definition validSigners ::
  "(txnbuild_Transaction \<Rightarrow> string \<Rightarrow> string \<Rightarrow> bool) \<Rightarrow> txnbuild_Transaction \<Rightarrow> (string \<times> int) list \<Rightarrow> string list" where
  "validSigners valid c signers =
     filter (\<lambda>k. list_ex (\<lambda>sg. valid c sg k) (Signatures c)) (remdups (map fst signers))"

definition verifiedWeight ::
  "(txnbuild_Transaction \<Rightarrow> string \<Rightarrow> string \<Rightarrow> bool) \<Rightarrow> txnbuild_Transaction \<Rightarrow> (string \<times> int) list \<Rightarrow> int" where
  "verifiedWeight valid c signers = sum_list (map (weight signers) (validSigners valid c signers))"

text \<open>Whether the challenge carries a signature that corresponds to no signer of the
  table.\<close>

definition unknownSignature ::
  "(txnbuild_Transaction \<Rightarrow> string \<Rightarrow> string \<Rightarrow> bool) \<Rightarrow> txnbuild_Transaction \<Rightarrow> (string \<times> int) list \<Rightarrow> bool" where
  "unknownSignature valid c signers =
     list_ex (\<lambda>sg. \<not> list_ex (\<lambda>k. valid c sg k) (map fst signers)) (Signatures c)"

definition verifyThreshold ::
  "(txnbuild_Transaction \<Rightarrow> string \<Rightarrow> string \<Rightarrow> bool) \<Rightarrow> txnbuild_Transaction \<Rightarrow> (string \<times> int) list \<Rightarrow> 8 word
     \<Rightarrow> error + string list" where
  "verifyThreshold valid c signers requiredThreshold =
     (if unknownSignature valid c signers then Inl ''UnknownSigner''
      else if validSigners valid c signers = [] then Inl ''NoSigner''
      else if verifiedWeight valid c signers < uint requiredThreshold then Inl ''ThresholdNotMet''
      else Inr (validSigners valid c signers))"

text \<open>Modelled from the spec: \<^verbatim>\<open>txnbuild.VerifyChallengeTxSigners\<close> is called by the
  handler, its source is not among the files. Section 4.4 of the specification: the
  challenge must carry a valid signature from the keypair matching the client account
  itself; the call fails if that signature is missing or invalid; no threshold
  arithmetic applies.\<close>

definition selfSigned ::
  "(txnbuild_Transaction \<Rightarrow> string \<Rightarrow> string \<Rightarrow> bool) \<Rightarrow> txnbuild_Transaction \<Rightarrow> string \<Rightarrow> bool" where
  "selfSigned valid c accountID = list_ex (\<lambda>sg. valid c sg accountID) (Signatures c)"

definition verifySignersOnly ::
  "(txnbuild_Transaction \<Rightarrow> string \<Rightarrow> string \<Rightarrow> bool) \<Rightarrow> txnbuild_Transaction \<Rightarrow> string
     \<Rightarrow> error + string list" where
  "verifySignersOnly valid c accountID =
     (if selfSigned valid c accountID then Inr [accountID] else Inl ''Unauthorized'')"

text \<open>Modelled from the spec: the source of \<^verbatim>\<open>txnbuild.ReadChallengeTx\<close> is not among the
  files, and Go's result type lets it return a nil transaction together with a nil
  error. Section 6 of the specification gives the parser the contract
  \<^verbatim>\<open>parse(...) -> Challenge | Error\<close>: a call that returns no error returns a challenge.
  \<open>parseContract\<close> says so for the signing addresses of the handler.\<close>

definition parseContract :: "collaborators \<Rightarrow> tokenHandler \<Rightarrow> tokenRequest \<Rightarrow> bool" where
  "parseContract env h req =
     list_all (\<lambda>s. validates env h req s \<longrightarrow> rc_tx (parsed env h req s) \<noteq> None) (SigningAddresses h)"

subsection \<open>A concrete request\<close>

text \<open>A handler with two signing addresses, a challenge built for the second one, signed
  by the keys \<open>GA\<close> and \<open>GB\<close>, and a ledger on which the client account has the signers
  \<open>GA\<close> (weight 20), \<open>GB\<close> (weight 10) and \<open>GC\<close> (weight 5) and the thresholds 1, 10, 30.\<close>

definition tx0 :: txnbuild_Transaction where
  "tx0 = \<lparr>Timebounds = \<lparr>MinTime = 1000, MaxTime = 1300\<rparr>, Signatures = [''sGA'', ''sGB'']\<rparr>"

definition valid0 :: "txnbuild_Transaction \<Rightarrow> string \<Rightarrow> string \<Rightarrow> bool" where
  "valid0 c sg k = (sg = CHR ''s'' # k)"

definition account0 :: Account where
  "account0 = \<lparr>Thresholds = \<lparr>LowThreshold = 1, MedThreshold = 10, HighThreshold = 30\<rparr>,
               SignerSummary = [(''GA'', 20), (''GB'', 10), (''GC'', 5)]\<rparr>"

definition handler0 :: tokenHandler where
  "handler0 = \<lparr>NetworkPassphrase = ''net'', SigningAddresses = [''S1'', ''S2''],
               JWK = \<lparr>Algorithm = ''ES256'', Key = ''k''\<rparr>, JWTIssuer = ''iss'',
               JWTExpiresIn = 300000000000, AllowAccountsThatDoNotExist = False,
               Domain' = ''auth'', HomeDomains = [''home'']\<rparr>"

definition parse0 :: ReadChallengeTx_result where
  "parse0 = \<lparr>rc_tx = Some tx0, rc_clientAccountID = ''GA'', rc_homeDomain = ''home'', rc_err = None\<rparr>"

definition noparse :: ReadChallengeTx_result where
  "noparse = \<lparr>rc_tx = None, rc_clientAccountID = [], rc_homeDomain = [], rc_err = Some ''server''\<rparr>"

definition world0 :: collaborators where
  "world0 =
     \<lparr>Decode = (\<lambda>r. if r = [] then Inl ''empty'' else Inr \<lparr>Transaction = r\<rparr>),
      ReadChallengeTx = (\<lambda>raw a np d hs. if a = ''S2'' then parse0 else noparse),
      HashHex = (\<lambda>t np. Inr ''abcd''),
      AccountDetail = (\<lambda>a. Inr account0),
      IsNotFoundError = (\<lambda>e. e = ''404''),
      VerifyChallengeTxThreshold = (\<lambda>raw a np d hs T ss. verifyThreshold valid0 tx0 ss T),
      VerifyChallengeTxSigners =
        (\<lambda>raw a np d hs ks. case ks of [k] \<Rightarrow> verifySignersOnly valid0 tx0 k | _ \<Rightarrow> Inl ''signers''),
      NewSigner = (\<lambda>k. Inr (Algorithm k)),
      CompactSerialize = (\<lambda>jws c. Inr (jws @ Subject c))\<rparr>"

text \<open>Variations: the ledger fails; the ledger does not know the account; the hash
  fails; the key of the handler is unusable; the signature fails; the signer produces
  other bytes; the signers \<open>GA\<close> and \<open>GB\<close> weigh 15 and 5, so that the signatures weigh
  20; the signer table lacks \<open>GB\<close> and gives \<open>GA\<close> the weight 30, so that the weight
  suffices and the signature of \<open>GB\<close> is that of no known signer; the challenge carries
  no signature and the thresholds of the account are 0; the account \<open>GC\<close>, which did not
  sign, is missing from the ledger; the flag is set; the duration is one and a half
  seconds.\<close>

definition world_lookup_fails :: collaborators where
  "world_lookup_fails = world0\<lparr>AccountDetail := \<lambda>a. Inl ''500''\<rparr>"

definition world_missing :: collaborators where
  "world_missing = world0\<lparr>AccountDetail := \<lambda>a. Inl ''404''\<rparr>"

definition world_hash_fails :: collaborators where
  "world_hash_fails = world0\<lparr>HashHex := \<lambda>t np. Inl ''hash''\<rparr>"

definition world_bad_key :: collaborators where
  "world_bad_key = world0\<lparr>NewSigner := \<lambda>k. Inl ''key''\<rparr>"

definition world_missing_bad_key :: collaborators where
  "world_missing_bad_key = world0\<lparr>AccountDetail := \<lambda>a. Inl ''404'', NewSigner := \<lambda>k. Inl ''key''\<rparr>"

definition world_sign_fails :: collaborators where
  "world_sign_fails = world0\<lparr>CompactSerialize := \<lambda>jws c. Inl ''sign''\<rparr>"

definition world_other_bytes :: collaborators where
  "world_other_bytes = world0\<lparr>CompactSerialize := \<lambda>jws c. Inr (jws @ Subject c @ ''2'')\<rparr>"

definition account_light :: Account where
  "account_light = account0\<lparr>SignerSummary := [(''GA'', 15), (''GB'', 5), (''GC'', 10)]\<rparr>"

definition world_light :: collaborators where
  "world_light = world0\<lparr>AccountDetail := \<lambda>a. Inr account_light\<rparr>"

definition account_unknown :: Account where
  "account_unknown = account0\<lparr>SignerSummary := [(''GA'', 30), (''GC'', 5)]\<rparr>"

definition world_unknown :: collaborators where
  "world_unknown = world0\<lparr>AccountDetail := \<lambda>a. Inr account_unknown\<rparr>"

definition tx_unsigned :: txnbuild_Transaction where
  "tx_unsigned = tx0\<lparr>Signatures := []\<rparr>"

definition account_open :: Account where
  "account_open = account0\<lparr>Thresholds := \<lparr>LowThreshold = 0, MedThreshold = 0, HighThreshold = 0\<rparr>\<rparr>"

definition world_unsigned :: collaborators where
  "world_unsigned =
     world0\<lparr>ReadChallengeTx := \<lambda>raw a np d hs. if a = ''S2'' then parse0\<lparr>rc_tx := Some tx_unsigned\<rparr> else noparse,
            AccountDetail := \<lambda>a. Inr account_open,
            VerifyChallengeTxThreshold := \<lambda>raw a np d hs T ss. verifyThreshold valid0 tx_unsigned ss T\<rparr>"

definition world_missing_unsigned :: collaborators where
  "world_missing_unsigned =
     world0\<lparr>AccountDetail := \<lambda>a. Inl ''404'',
            ReadChallengeTx := \<lambda>raw a np d hs. parse0\<lparr>rc_clientAccountID := ''GC''\<rparr>\<rparr>"

definition handler_allow :: tokenHandler where
  "handler_allow = handler0\<lparr>AllowAccountsThatDoNotExist := True\<rparr>"

definition handler_subsecond :: tokenHandler where
  "handler_subsecond = handler0\<lparr>JWTExpiresIn := 1500000000\<rparr>"

section \<open>Lemmas\<close>

subsection \<open>Time arithmetic\<close>

text \<open>Adding a duration to a whole second: Go's truncating division and its correction
  of the nanoseconds amount to the floor of the duration in seconds.\<close>

lemma Add_Unix:
  "Add (Unix m 0) d = \<lparr>unixSec = m + d div 1000000000, nsec = d mod 1000000000\<rparr>"
proof (cases "0 \<le> d")
  case True
  then have q: "quot d 1000000000 = d div 1000000000"
    by (simp add: quot_def sgn_if)
  have "d mod 1000000000 < 1000000000" "0 \<le> d mod 1000000000" by simp_all
  moreover have "rem d 1000000000 = d mod 1000000000"
    unfolding rem_def q by (simp add: minus_mult_div_eq_mod)
  ultimately show ?thesis
    by (simp add: Add_def Unix_def q Let_def)
next
  case False
  then have neg: "d < 0" by simp
  then have q: "quot d 1000000000 = - ((- d) div 1000000000)"
    by (simp add: quot_def sgn_if)
  show ?thesis
  proof (cases "d mod 1000000000 = 0")
    case True
    then have "(- d) div 1000000000 = - (d div 1000000000)"
      by (simp add: zdiv_zminus1_eq_if)
    then have q': "quot d 1000000000 = d div 1000000000" using q by simp
    have r: "rem d 1000000000 = 0"
      unfolding rem_def q' using True by (simp add: minus_mult_div_eq_mod)
    show ?thesis using True by (simp add: Add_def Unix_def q' r Let_def)
  next
    case False
    then have "(- d) div 1000000000 = - (d div 1000000000) - 1"
      by (simp add: zdiv_zminus1_eq_if)
    then have q': "quot d 1000000000 = d div 1000000000 + 1" using q by simp
    have r: "rem d 1000000000 = d mod 1000000000 - 1000000000"
      unfolding rem_def q' by (simp add: algebra_simps minus_mult_div_eq_mod [symmetric])
    have b: "d mod 1000000000 < 1000000000" "0 \<le> d mod 1000000000" by simp_all
    show ?thesis using False b by (simp add: Add_def Unix_def q' r Let_def)
  qed
qed

lemma Add_second:
  "Add \<lparr>unixSec = m, nsec = 0\<rparr> d = \<lparr>unixSec = m + d div 1000000000, nsec = d mod 1000000000\<rparr>"
  using Add_Unix [of m d] by (simp add: Unix_def)

lemma claims_times:
  "IssuedAt (tokenClaims h t a) =
     (if MinTime (Timebounds t) = - unixToInternal then None else Some (MinTime (Timebounds t)))"
  "Expiry (tokenClaims h t a) =
     (if MinTime (Timebounds t) + JWTExpiresIn h div 1000000000 = - unixToInternal
         \<and> JWTExpiresIn h mod 1000000000 = 0 then None
      else Some (MinTime (Timebounds t) + JWTExpiresIn h div 1000000000))"
  by (auto simp: tokenClaims_def Let_def Add_second NewNumericDate_def IsZero_def Unix_def)

subsection \<open>The loop over the signing addresses\<close>

lemma loop_calls:
  "snd (range_SigningAddresses env h req ss (v, cs)) =
     cs @ map (probe h req) (takeWhile (\<lambda>s. \<not> validates env h req s) ss)
        @ map (probe h req) (case find (validates env h req) ss of None \<Rightarrow> [] | Some s \<Rightarrow> [s])"
  by (induction ss arbitrary: v cs) (simp_all add: Let_def validates_def parsed_def probe_def)

lemma loop_none:
  "find (validates env h req) ss = None \<Longrightarrow>
     signingAddress (fst (range_SigningAddresses env h req ss (v, cs))) = signingAddress v"
  by (induction ss arbitrary: v cs) (auto simp add: Let_def validates_def parsed_def split: if_splits)

lemma loop_some:
  "find (validates env h req) ss = Some s \<Longrightarrow>
     fst (range_SigningAddresses env h req ss (v, cs)) =
       \<lparr>tx = rc_tx (parsed env h req s), clientAccountID = rc_clientAccountID (parsed env h req s),
        signingAddress = Some s, homeDomain = rc_homeDomain (parsed env h req s), err = None\<rparr>"
  by (induction ss arbitrary: v cs) (auto simp add: Let_def validates_def parsed_def split: if_splits)

lemma loop_probes:
  "range_SigningAddresses env h req ss (v, []) = (v', cs0) \<Longrightarrow> list_all isProbe cs0"
  using loop_calls [of env h req ss v "[]"]
  by (auto simp: list_all_iff probe_def split: option.splits)

lemma first_valid:
  "ss = pre @ s # post \<Longrightarrow> \<forall>x\<in>set pre. \<not> P x \<Longrightarrow> P s \<Longrightarrow>
     find P ss = Some s \<and> takeWhile (\<lambda>x. \<not> P x) ss = pre"
  by (induction pre arbitrary: ss) auto

subsection \<open>The handler after the loop\<close>

lemma ServeHTTP_none:
  assumes "Decode env r = Inr req" "find (validates env h req) (SigningAddresses h) = None"
  shows "ServeHTTP env h r = (badRequest, map (probe h req) (SigningAddresses h))"
proof -
  obtain v cs0 where l: "range_SigningAddresses env h req (SigningAddresses h) (vars0, []) = (v, cs0)"
    by (cases "range_SigningAddresses env h req (SigningAddresses h) (vars0, [])")
  have tw: "takeWhile (\<lambda>s. \<not> validates env h req s) (SigningAddresses h) = SigningAddresses h"
    using assms(2) by (simp add: find_None_iff)
  have "signingAddress v = None"
    using loop_none [OF assms(2), of vars0 "[]"] l by (simp add: vars0_def)
  moreover have "cs0 = map (probe h req) (SigningAddresses h)"
    using loop_calls [of env h req "SigningAddresses h" vars0 "[]"] l
    by (simp add: tw assms(2))
  ultimately show ?thesis
    using assms(1) l by (simp add: ServeHTTP_def afterLoop_def)
qed

lemma ServeHTTP_some:
  assumes "Decode env r = Inr req" "find (validates env h req) (SigningAddresses h) = Some s"
  shows "ServeHTTP env h r =
           afterLoop env h req
             \<lparr>tx = rc_tx (parsed env h req s), clientAccountID = rc_clientAccountID (parsed env h req s),
              signingAddress = Some s, homeDomain = rc_homeDomain (parsed env h req s), err = None\<rparr>
             (map (probe h req) (takeWhile (\<lambda>s. \<not> validates env h req s) (SigningAddresses h))
                @ [probe h req s])"
proof -
  obtain v cs0 where l: "range_SigningAddresses env h req (SigningAddresses h) (vars0, []) = (v, cs0)"
    by (cases "range_SigningAddresses env h req (SigningAddresses h) (vars0, [])")
  show ?thesis
    using loop_some [OF assms(2), of vars0 "[]"] loop_calls [of env h req "SigningAddresses h" vars0 "[]"]
      l assms by (simp add: ServeHTTP_def)
qed

lemma afterLoop_calls:
  assumes "afterLoop env h req v cs0 = (resp, cs)" "signingAddress v = Some s"
  shows "\<exists>rest. cs = cs0 @ rest \<and>
           list_all (usesSelection s \<lparr>rc_tx = tx v, rc_clientAccountID = clientAccountID v,
                                     rc_homeDomain = homeDomain v, rc_err = err v\<rparr>) rest"
  using assms
  by (auto simp: afterLoop_def fromLookup_def lookupAccount_def verifySigners_def issueToken_def
      tokenClaims_def Let_def split: option.splits sum.splits if_splits prod.splits)

subsection \<open>The calls of a run\<close>

lemma newSignerCalls_append: "newSignerCalls (xs @ ys) = newSignerCalls xs @ newSignerCalls ys"
  by (induction xs rule: newSignerCalls.induct) simp_all

lemma signedClaims_append: "signedClaims (xs @ ys) = signedClaims xs @ signedClaims ys"
  by (induction xs rule: signedClaims.induct) simp_all

lemma probes_no_signing:
  "list_all isProbe cs \<Longrightarrow> newSignerCalls cs = [] \<and> signedClaims cs = [] \<and> filter isVerification cs = []"
proof (induction cs)
  case Nil
  then show ?case by simp
next
  case (Cons a cs)
  then show ?case by (cases a) simp_all
qed

lemma probes_only:
  assumes "list_all isProbe cs"
  shows "Call_HashHex t np \<notin> set cs" "Call_AccountDetail a \<notin> set cs" "Call_NewSigner k \<notin> set cs"
    "Call_CompactSerialize jws c \<notin> set cs"
    "Call_VerifyChallengeTxThreshold raw s np d hs T ss \<notin> set cs"
    "Call_VerifyChallengeTxSigners raw s np d hs ks \<notin> set cs"
  using assms by (auto simp: list_all_iff)

lemma ServeHTTP_decoded:
  assumes "Decode env r = Inr req"
  obtains v cs0 where "ServeHTTP env h r = afterLoop env h req v cs0" "list_all isProbe cs0"
    "range_SigningAddresses env h req (SigningAddresses h) (vars0, []) = (v, cs0)"
proof -
  obtain v cs0 where l: "range_SigningAddresses env h req (SigningAddresses h) (vars0, []) = (v, cs0)"
    by (cases "range_SigningAddresses env h req (SigningAddresses h) (vars0, [])")
  from loop_probes [OF l] l assms that show ?thesis by (simp add: ServeHTTP_def)
qed

lemmas stage_defs = afterLoop_def fromLookup_def lookupAccount_def verifySigners_def issueToken_def

lemma fromLookup_calls:
  assumes "fromLookup env h req s t a cs2 = (resp, cs)"
  shows "\<exists>rest. cs = cs2 @ rest \<and> Call_AccountDetail b \<notin> set rest \<and> Call_HashHex t' np \<notin> set rest"
  using assms
  by (auto simp: fromLookup_def lookupAccount_def verifySigners_def issueToken_def Let_def
      split: option.splits sum.splits if_splits prod.splits)

lemma reaches_lookup:
  assumes run: "ServeHTTP env h r = (resp, cs)" and looked: "Call_AccountDetail a \<in> set cs"
  obtains req v cs0 s t hash where
    "Decode env r = Inr req"
    "range_SigningAddresses env h req (SigningAddresses h) (vars0, []) = (v, cs0)"
    "list_all isProbe cs0"
    "signingAddress v = Some s" "homeDomain v \<noteq> []" "tx v = Some t" "clientAccountID v = a"
    "HashHex env t (NetworkPassphrase h) = Inr hash"
    "fromLookup env h req s t a (cs0 @ [Call_HashHex t (NetworkPassphrase h), Call_AccountDetail a])
       = (resp, cs)"
proof (cases "Decode env r")
  case (Inl e)
  with run looked show ?thesis by (auto simp: ServeHTTP_def)
next
  case (Inr req)
  from ServeHTTP_decoded [OF Inr, of h] obtain v cs0
    where a: "ServeHTTP env h r = afterLoop env h req v cs0" and p: "list_all isProbe cs0"
      and l: "range_SigningAddresses env h req (SigningAddresses h) (vars0, []) = (v, cs0)" by blast
  from a run have al: "afterLoop env h req v cs0 = (resp, cs)" by simp
  note np = probes_only [OF p]
  from al looked np(2) obtain s where s: "signingAddress v = Some s"
    by (auto simp: afterLoop_def split: option.splits)
  from al looked np(2) s have hd: "homeDomain v \<noteq> []"
    by (auto simp: afterLoop_def split: option.splits)
  from al looked np(2) s hd obtain t where t: "tx v = Some t"
    by (auto simp: afterLoop_def split: option.splits)
  from al looked np(2) s hd t obtain hash where hh: "HashHex env t (NetworkPassphrase h) = Inr hash"
    by (auto simp: afterLoop_def split: sum.splits)
  from al s hd t hh
  have fl: "fromLookup env h req s t (clientAccountID v)
              (cs0 @ [Call_HashHex t (NetworkPassphrase h), Call_AccountDetail (clientAccountID v)])
            = (resp, cs)"
    by (simp add: afterLoop_def)
  from fromLookup_calls [OF fl, of a t "NetworkPassphrase h"] looked np(2) [of a]
  have "clientAccountID v = a" by auto
  with Inr l p s hd t hh fl that show ?thesis by blast
qed

lemma loop_flag:
  "range_SigningAddresses env (h\<lparr>AllowAccountsThatDoNotExist := b\<rparr>) req ss (v, cs)
     = range_SigningAddresses env h req ss (v, cs)"
  by (induction ss arbitrary: v cs) (simp_all add: Let_def)

lemma issueToken_flag:
  "issueToken env (h\<lparr>AllowAccountsThatDoNotExist := b\<rparr>) t a = issueToken env h t a"
  by (rule ext) (simp add: issueToken_def tokenClaims_def Let_def split: sum.splits)

lemma fromLookup_no_panic: "fst (fromLookup env h req s t a cs2) \<noteq> panic"
  by (auto simp: fromLookup_def lookupAccount_def verifySigners_def issueToken_def Let_def
      split: option.splits sum.splits if_splits prod.splits)

lemma probes_stage: "list_all isProbe cs \<Longrightarrow> \<forall>c\<in>set cs. stage c = 0"
proof (induction cs)
  case Nil
  then show ?case by simp
next
  case (Cons a cs)
  then show ?case by (cases a) simp_all
qed

lemma sorted_after_probes:
  assumes "list_all isProbe cs0" "sorted (map stage rest)"
  shows "sorted (map stage (cs0 @ rest))"
proof -
  from probes_stage [OF assms(1)] have "map stage cs0 = replicate (length cs0) 0"
    by (induction cs0) simp_all
  then have "sorted (map stage cs0)" by (simp add: sorted_replicate)
  with probes_stage [OF assms(1)] assms(2) show ?thesis by (auto simp: sorted_append)
qed

subsection \<open>Runs that reach the verification\<close>


lemma fromLookup_missing:
  assumes "AccountDetail env a = Inl e" "IsNotFoundError env e"
  shows "fromLookup env h req s t a cs2 =
     (if \<not> AllowAccountsThatDoNotExist h then (unauthorized, cs2)
      else
        (let call = Call_VerifyChallengeTxSigners (Transaction req) s (NetworkPassphrase h) (Domain' h)
                      (HomeDomains h) [a]
         in case VerifyChallengeTxSigners env (Transaction req) s (NetworkPassphrase h) (Domain' h)
                   (HomeDomains h) [a] of
              Inl e \<Rightarrow> (unauthorized, cs2 @ [call])
            | Inr signersVerified \<Rightarrow> issueToken env h t a (cs2 @ [call])))"
  using assms by (simp add: fromLookup_def lookupAccount_def verifySigners_def Let_def split: sum.splits)

lemma issueToken_result:
  assumes "issueToken env h t a cs3 = (resp, cs)"
  shows "isToken resp = signingSucceeds env h t a"
    and "filter isVerification cs = filter isVerification cs3"
    and "resp = serverError \<or> isToken resp"
  using assms
  by (auto simp: issueToken_def signingSucceeds_def Let_def split: sum.splits)


lemma verifyThreshold_signers:
  assumes "verifyThreshold valid c ss T = Inr ks"
  shows "ks \<noteq> []" and "distinct ks" and "set ks \<subseteq> fst ` set ss"
    and "\<forall>k\<in>set ks. \<exists>sg\<in>set (Signatures c). valid c sg k"
    and "\<forall>sg\<in>set (Signatures c). \<exists>k\<in>set ks. valid c sg k"
    and "uint T \<le> sum_list (map (weight ss) ks)"
proof -
  from assms have ks: "ks = validSigners valid c ss" and ne: "validSigners valid c ss \<noteq> []"
    and known: "\<not> unknownSignature valid c ss" and w: "uint T \<le> verifiedWeight valid c ss"
    by (auto simp: verifyThreshold_def split: if_splits)
  from ks ne show "ks \<noteq> []" by simp
  from ks show "distinct ks" by (simp add: validSigners_def)
  from ks show "set ks \<subseteq> fst ` set ss" by (auto simp: validSigners_def)
  from ks show "\<forall>k\<in>set ks. \<exists>sg\<in>set (Signatures c). valid c sg k"
    by (auto simp: validSigners_def list_ex_iff)
  from ks known show "\<forall>sg\<in>set (Signatures c). \<exists>k\<in>set ks. valid c sg k"
    by (fastforce simp: validSigners_def unknownSignature_def list_ex_iff)
  from ks w show "uint T \<le> sum_list (map (weight ss) ks)" by (simp add: verifiedWeight_def)
qed

lemma verifySignersOnly_fails:
  "isl (verifySignersOnly valid c a) = (\<not> selfSigned valid c a)"
  by (simp add: verifySignersOnly_def)

lemma reaches_selected:
  assumes run: "ServeHTTP env h r = (resp, cs)" and looked: "Call_AccountDetail a \<in> set cs"
    and dec: "Decode env r = Inr req"
    and loop: "range_SigningAddresses env h req (SigningAddresses h) (vars0, []) = (v, cs0)"
    and sel: "signingAddress v = Some s" and parsed: "tx v = Some c"
  shows "list_all isProbe cs0"
    and "fromLookup env h req s c a (cs0 @ [Call_HashHex c (NetworkPassphrase h), Call_AccountDetail a])
           = (resp, cs)"
proof -
  obtain req' v' cs0' s' t' hash where f:
    "Decode env r = Inr req'"
    "range_SigningAddresses env h req' (SigningAddresses h) (vars0, []) = (v', cs0')"
    "list_all isProbe cs0'"
    "signingAddress v' = Some s'" "homeDomain v' \<noteq> []" "tx v' = Some t'" "clientAccountID v' = a"
    "HashHex env t' (NetworkPassphrase h) = Inr hash"
    "fromLookup env h req' s' t' a (cs0' @ [Call_HashHex t' (NetworkPassphrase h), Call_AccountDetail a])
       = (resp, cs)"
    by (rule reaches_lookup [OF run looked])
  from f(1) dec have "req' = req" by simp
  with f(2) loop have "v' = v" "cs0' = cs0" by simp_all
  with f(4,6) sel parsed have "s' = s" "t' = c" by simp_all
  with f(3,9) \<open>req' = req\<close> \<open>cs0' = cs0\<close>
  show "list_all isProbe cs0"
    and "fromLookup env h req s c a (cs0 @ [Call_HashHex c (NetworkPassphrase h), Call_AccountDetail a])
           = (resp, cs)" by simp_all
qed

subsection \<open>Runs that issue a token\<close>

lemma issued_path:
  assumes issued: "ServeHTTP env h r = (ok res, cs)"
  obtains req v cs0 s t cs3 jws where
    "Decode env r = Inr req"
    "range_SigningAddresses env h req (SigningAddresses h) (vars0, []) = (v, cs0)"
    "signingAddress v = Some s" "tx v = Some t"
    "NewSigner env (JWK h) = Inr jws"
    "CompactSerialize env jws (tokenClaims h t (clientAccountID v)) = Inr (Token res)"
    "cs = cs3 @ [Call_NewSigner (JWK h), Call_CompactSerialize jws (tokenClaims h t (clientAccountID v))]"
    "newSignerCalls cs3 = []" "signedClaims cs3 = []"
proof (cases "Decode env r")
  case (Inl e)
  with issued show ?thesis by (auto simp: ServeHTTP_def)
next
  case (Inr req)
  from ServeHTTP_decoded [OF Inr, of h] obtain v cs0
    where a: "ServeHTTP env h r = afterLoop env h req v cs0" and p: "list_all isProbe cs0"
      and l: "range_SigningAddresses env h req (SigningAddresses h) (vars0, []) = (v, cs0)" by blast
  from a issued have al: "afterLoop env h req v cs0 = (ok res, cs)" by simp
  then obtain s t where s: "signingAddress v = Some s" and t: "tx v = Some t"
    by (auto simp: afterLoop_def split: option.splits if_splits)
  from al s t obtain cs3 where
    it: "issueToken env h t (clientAccountID v) cs3 = (ok res, cs)"
    and n: "newSignerCalls cs3 = []" "signedClaims cs3 = []"
    using probes_no_signing [OF p]
    by (auto simp: afterLoop_def fromLookup_def lookupAccount_def verifySigners_def Let_def
        newSignerCalls_append signedClaims_append
        split: option.splits sum.splits if_splits prod.splits)
  from it obtain jws where "NewSigner env (JWK h) = Inr jws"
    "CompactSerialize env jws (tokenClaims h t (clientAccountID v)) = Inr (Token res)"
    "cs = cs3 @ [Call_NewSigner (JWK h), Call_CompactSerialize jws (tokenClaims h t (clientAccountID v))]"
    by (auto simp: issueToken_def Let_def split: sum.splits)
  with Inr l s t n that show ?thesis by blast
qed

lemma loop_same:
  "ReadChallengeTx env2 = ReadChallengeTx env1 \<Longrightarrow>
     range_SigningAddresses env2 h req ss (v, cs) = range_SigningAddresses env1 h req ss (v, cs)"
  by (induction ss arbitrary: v cs) (simp_all add: Let_def)

lemma issued_claims:
  assumes issued: "ServeHTTP env h r = (ok res, cs)"
  obtains jws c cs3 where
    "CompactSerialize env jws c = Inr (Token res)"
    "cs = cs3 @ [Call_NewSigner (JWK h), Call_CompactSerialize jws c]"
    "signedClaims cs3 = []"
proof -
  obtain req v cs0 s t cs3 jws where
    "Decode env r = Inr req"
    "range_SigningAddresses env h req (SigningAddresses h) (vars0, []) = (v, cs0)"
    "signingAddress v = Some s" "tx v = Some t"
    "NewSigner env (JWK h) = Inr jws"
    "CompactSerialize env jws (tokenClaims h t (clientAccountID v)) = Inr (Token res)"
    "cs = cs3 @ [Call_NewSigner (JWK h), Call_CompactSerialize jws (tokenClaims h t (clientAccountID v))]"
    "newSignerCalls cs3 = []" "signedClaims cs3 = []"
    by (rule issued_path [OF issued])
  then show ?thesis using that by blast
qed

lemma issueToken_same:
  assumes "NewSigner env2 = NewSigner env1"
    and "\<forall>jws c. isl (CompactSerialize env2 jws c) = isl (CompactSerialize env1 jws c)"
    and "issueToken env1 h t a cs3 = (ok res1, cs)"
  shows "\<exists>res2. issueToken env2 h t a cs3 = (ok res2, cs)"
proof -
  from assms(3) obtain jws tok where ns: "NewSigner env1 (JWK h) = Inr jws"
    and ser: "CompactSerialize env1 jws (tokenClaims h t a) = Inr tok"
    and cs: "cs = cs3 @ [Call_NewSigner (JWK h), Call_CompactSerialize jws (tokenClaims h t a)]"
    by (auto simp: issueToken_def Let_def split: sum.splits)
  from assms(2) have "isl (CompactSerialize env2 jws (tokenClaims h t a))
                    = isl (CompactSerialize env1 jws (tokenClaims h t a))" by blast
  with ser obtain tok2 where "CompactSerialize env2 jws (tokenClaims h t a) = Inr tok2"
    by (cases "CompactSerialize env2 jws (tokenClaims h t a)") simp_all
  with ns cs assms(1) show ?thesis by (simp add: issueToken_def)
qed

lemma no_early_ok:
  "lookupAccount env a \<noteq> Inl (ok res)"
  "verifySigners env h req s a found cs2 \<noteq> (Inl (ok res), cs)"
  by (auto simp: lookupAccount_def verifySigners_def Let_def split: sum.splits option.splits if_splits)

lemma fromLookup_same:
  assumes same: "sameButSignatureBytes env1 env2"
    and run: "fromLookup env1 h req s t a cs2 = (ok res1, cs)"
  shows "\<exists>res2. fromLookup env2 h req s t a cs2 = (ok res2, cs)"
proof -
  from same have la: "lookupAccount env2 a = lookupAccount env1 a"
    by (simp add: lookupAccount_def sameButSignatureBytes_def split: sum.splits)
  from same have vs: "\<And>found. verifySigners env2 h req s a found cs2 = verifySigners env1 h req s a found cs2"
    by (simp add: verifySigners_def sameButSignatureBytes_def Let_def split: option.splits sum.splits)
  from run obtain found sv cs3 where f: "lookupAccount env1 a = Inr found"
    and v: "verifySigners env1 h req s a found cs2 = (Inr sv, cs3)"
    and i: "issueToken env1 h t a cs3 = (ok res1, cs)"
    by (auto simp: fromLookup_def no_early_ok split: sum.splits prod.splits)
  from same have "NewSigner env2 = NewSigner env1"
    and "\<forall>jws c. isl (CompactSerialize env2 jws c) = isl (CompactSerialize env1 jws c)"
    by (simp_all add: sameButSignatureBytes_def)
  from issueToken_same [OF this i] obtain res2 where "issueToken env2 h t a cs3 = (ok res2, cs)" ..
  with f v la vs show ?thesis by (simp add: fromLookup_def)
qed

lemma ServeHTTP_same:
  assumes same: "sameButSignatureBytes env1 env2"
    and first: "ServeHTTP env1 h r = (ok res1, cs)"
  shows "\<exists>res2. ServeHTTP env2 h r = (ok res2, cs)"
proof -
  from same have eqs: "Decode env2 = Decode env1" "ReadChallengeTx env2 = ReadChallengeTx env1"
    "HashHex env2 = HashHex env1"
    by (simp_all add: sameButSignatureBytes_def)
  from first obtain req where dec: "Decode env1 r = Inr req"
    by (cases "Decode env1 r") (simp_all add: ServeHTTP_def)
  obtain v cs0 where l: "range_SigningAddresses env1 h req (SigningAddresses h) (vars0, []) = (v, cs0)"
    by (cases "range_SigningAddresses env1 h req (SigningAddresses h) (vars0, [])")
  from first dec l have al: "afterLoop env1 h req v cs0 = (ok res1, cs)" by (simp add: ServeHTTP_def)
  then obtain s t hash where v: "signingAddress v = Some s" "homeDomain v \<noteq> []" "tx v = Some t"
    "HashHex env1 t (NetworkPassphrase h) = Inr hash"
    by (auto simp: afterLoop_def split: option.splits if_splits sum.splits)
  with al have "fromLookup env1 h req s t (clientAccountID v)
                  (cs0 @ [Call_HashHex t (NetworkPassphrase h), Call_AccountDetail (clientAccountID v)])
                = (ok res1, cs)"
    by (simp add: afterLoop_def)
  from fromLookup_same [OF same this] obtain res2 where
    "fromLookup env2 h req s t (clientAccountID v)
       (cs0 @ [Call_HashHex t (NetworkPassphrase h), Call_AccountDetail (clientAccountID v)])
     = (ok res2, cs)" ..
  with v have "afterLoop env2 h req v cs0 = (ok res2, cs)"
    by (simp add: afterLoop_def eqs)
  with dec l show ?thesis by (simp add: ServeHTTP_def eqs(1) loop_same [OF eqs(2)])
qed

subsection \<open>The concrete request\<close>

subsection \<open>What the later stages are given\<close>

text \<open>The calls that follow the loop, and the claims of an issued token, in terms of the
  variables the loop leaves behind.\<close>

lemma issueToken_claims:
  assumes "issueToken env h t a cs3 = (resp, cs)" "isToken resp"
  shows "signedClaims cs = signedClaims cs3 @ [tokenClaims h t a]"
  using assms
  by (auto simp: issueToken_def Let_def signedClaims_append split: sum.splits)

lemma fromLookup_selected:
  assumes run: "fromLookup env h req s t a cs2 = (resp, cs)"
  shows "resp \<noteq> badRequest"
    and "\<exists>rest. cs = cs2 @ rest"
    and "AccountDetail env a = Inr acct \<Longrightarrow>
           \<exists>rest. cs = cs2 @ Call_VerifyChallengeTxThreshold (Transaction req) s (NetworkPassphrase h)
                     (Domain' h) (HomeDomains h) (HighThreshold (Thresholds acct)) (SignerSummary acct) # rest"
    and "AccountDetail env a = Inl e \<Longrightarrow> IsNotFoundError env e \<Longrightarrow> AllowAccountsThatDoNotExist h \<Longrightarrow>
           \<exists>rest. cs = cs2 @ Call_VerifyChallengeTxSigners (Transaction req) s (NetworkPassphrase h)
                     (Domain' h) (HomeDomains h) [a] # rest"
    and "isToken resp \<Longrightarrow> signedClaims cs2 = [] \<Longrightarrow> signedClaims cs = [tokenClaims h t a]"
  using run
  by (auto simp: fromLookup_def lookupAccount_def verifySigners_def issueToken_def Let_def
        signedClaims_append split: sum.splits if_splits)

lemma afterLoop_selected:
  assumes run: "afterLoop env h req v cs0 = (resp, cs)"
    and sel: "signingAddress v = Some s" and hd: "homeDomain v \<noteq> []" and tx: "tx v = Some t"
    and probes: "list_all isProbe cs0"
  shows "resp \<noteq> badRequest"
    and "take 1 (drop (length cs0) cs) = [Call_HashHex t (NetworkPassphrase h)]"
    and "\<not> isl (HashHex env t (NetworkPassphrase h)) \<Longrightarrow>
           take 2 (drop (length cs0) cs) =
             [Call_HashHex t (NetworkPassphrase h), Call_AccountDetail (clientAccountID v)]"
    and "\<not> isl (HashHex env t (NetworkPassphrase h)) \<Longrightarrow> AccountDetail env (clientAccountID v) = Inr acct \<Longrightarrow>
           take 3 (drop (length cs0) cs) =
             [Call_HashHex t (NetworkPassphrase h), Call_AccountDetail (clientAccountID v),
              Call_VerifyChallengeTxThreshold (Transaction req) s (NetworkPassphrase h)
                (Domain' h) (HomeDomains h) (HighThreshold (Thresholds acct)) (SignerSummary acct)]"
    and "\<not> isl (HashHex env t (NetworkPassphrase h)) \<Longrightarrow> AccountDetail env (clientAccountID v) = Inl e \<Longrightarrow>
         IsNotFoundError env e \<Longrightarrow> AllowAccountsThatDoNotExist h \<Longrightarrow>
           take 3 (drop (length cs0) cs) =
             [Call_HashHex t (NetworkPassphrase h), Call_AccountDetail (clientAccountID v),
              Call_VerifyChallengeTxSigners (Transaction req) s (NetworkPassphrase h)
                (Domain' h) (HomeDomains h) [clientAccountID v]]"
    and "isToken resp \<Longrightarrow> signedClaims cs = [tokenClaims h t (clientAccountID v)]"
proof -
  let ?np = "NetworkPassphrase h"
  let ?a = "clientAccountID v"
  let ?cs2 = "cs0 @ [Call_HashHex t ?np, Call_AccountDetail ?a]"
  note none = probes_no_signing [OF probes]
  have sc2: "signedClaims ?cs2 = []" using none by (simp add: signedClaims_append)
  show "resp \<noteq> badRequest"
  proof (cases "HashHex env t ?np")
    case (Inl e) with run sel hd tx show ?thesis by (auto simp: afterLoop_def)
  next
    case (Inr hash)
    with run sel hd tx have "fromLookup env h req s t ?a ?cs2 = (resp, cs)" by (simp add: afterLoop_def)
    from fromLookup_selected(1) [OF this] show ?thesis .
  qed
  show "take 1 (drop (length cs0) cs) = [Call_HashHex t ?np]"
  proof (cases "HashHex env t ?np")
    case (Inl e) with run sel hd tx show ?thesis by (auto simp: afterLoop_def)
  next
    case (Inr hash)
    with run sel hd tx have "fromLookup env h req s t ?a ?cs2 = (resp, cs)" by (simp add: afterLoop_def)
    from fromLookup_selected(2) [OF this] show ?thesis by auto
  qed
  {
    assume "\<not> isl (HashHex env t ?np)"
    then obtain hash where "HashHex env t ?np = Inr hash" by (cases "HashHex env t ?np") auto
    with run sel hd tx have fl: "fromLookup env h req s t ?a ?cs2 = (resp, cs)" by (simp add: afterLoop_def)
    from fromLookup_selected(2) [OF fl]
    show "take 2 (drop (length cs0) cs) = [Call_HashHex t ?np, Call_AccountDetail ?a]" by auto
    {
      assume "AccountDetail env ?a = Inr acct"
      from fromLookup_selected(3) [OF fl this]
      show "take 3 (drop (length cs0) cs) =
             [Call_HashHex t ?np, Call_AccountDetail ?a,
              Call_VerifyChallengeTxThreshold (Transaction req) s ?np
                (Domain' h) (HomeDomains h) (HighThreshold (Thresholds acct)) (SignerSummary acct)]"
        by auto
    }
    {
      assume "AccountDetail env ?a = Inl e" "IsNotFoundError env e" "AllowAccountsThatDoNotExist h"
      from fromLookup_selected(4) [OF fl this]
      show "take 3 (drop (length cs0) cs) =
             [Call_HashHex t ?np, Call_AccountDetail ?a,
              Call_VerifyChallengeTxSigners (Transaction req) s ?np (Domain' h) (HomeDomains h) [?a]]"
        by auto
    }
  }
  {
    assume tok: "isToken resp"
    show "signedClaims cs = [tokenClaims h t ?a]"
    proof (cases "HashHex env t ?np")
      case (Inl e) with run sel hd tx tok show ?thesis by (auto simp: afterLoop_def)
    next
      case (Inr hash)
      with run sel hd tx have "fromLookup env h req s t ?a ?cs2 = (resp, cs)" by (simp add: afterLoop_def)
      from fromLookup_selected(5) [OF this tok sc2] show ?thesis .
    qed
  }
qed

lemma loop_selected:
  assumes "find (validates env h req) ss = Some s"
  shows "range_SigningAddresses env h req ss (vars0, []) =
           (\<lparr>tx = rc_tx (parsed env h req s), clientAccountID = rc_clientAccountID (parsed env h req s),
             signingAddress = Some s, homeDomain = rc_homeDomain (parsed env h req s), err = None\<rparr>,
            map (probe h req) (takeWhile (\<lambda>s. \<not> validates env h req s) ss) @ [probe h req s])"
  using loop_some [OF assms, of vars0 "[]"] loop_calls [of env h req ss vars0 "[]"] assms
  by (simp add: prod_eq_iff)

lemma world0_validates:
  "\<not> validates world0 handler0 \<lparr>Transaction = ''c''\<rparr> ''S1''"
  "validates world0 handler0 \<lparr>Transaction = ''c''\<rparr> ''S2''"
  "parsed world0 handler0 \<lparr>Transaction = ''c''\<rparr> ''S2'' = parse0"
  by (simp_all add: validates_def parsed_def world0_def parse0_def noparse_def)

lemmas eval_defs = ServeHTTP_def vars0_def stage_defs tokenClaims_def Let_def
  world0_def handler0_def parse0_def noparse_def tx0_def account0_def valid0_def
  verifyThreshold_def verifiedWeight_def validSigners_def unknownSignature_def weight_def
  verifySignersOnly_def selfSigned_def
  Unix_def Add_def NewNumericDate_def IsZero_def unixToInternal_def quot_def rem_def
  world_lookup_fails_def world_missing_def world_hash_fails_def world_bad_key_def
  world_missing_bad_key_def world_sign_fails_def world_other_bytes_def world_light_def
  account_light_def world_unknown_def account_unknown_def tx_unsigned_def account_open_def
  world_unsigned_def
  world_missing_unsigned_def
  handler_allow_def handler_subsecond_def

lemma run_ok:
  "ServeHTTP world0 handler0 ''c'' =
     (ok \<lparr>Token = ''ES256GA''\<rparr>,
      [Call_ReadChallengeTx ''c'' ''S1'' ''net'' ''auth'' [''home''],
       Call_ReadChallengeTx ''c'' ''S2'' ''net'' ''auth'' [''home''],
       Call_HashHex tx0 ''net'',
       Call_AccountDetail ''GA'',
       Call_VerifyChallengeTxThreshold ''c'' ''S2'' ''net'' ''auth'' [''home''] 30 (SignerSummary account0),
       Call_NewSigner \<lparr>Algorithm = ''ES256'', Key = ''k''\<rparr>,
       Call_CompactSerialize ''ES256''
         \<lparr>Issuer = ''iss'', Subject = ''GA'', IssuedAt = Some 1000, Expiry = Some 1300\<rparr>])"
  by (simp add: eval_defs)

lemma run_lookup_fails:
  "ServeHTTP world_lookup_fails handler_allow ''c'' =
     (serverError,
      [Call_ReadChallengeTx ''c'' ''S1'' ''net'' ''auth'' [''home''],
       Call_ReadChallengeTx ''c'' ''S2'' ''net'' ''auth'' [''home''],
       Call_HashHex tx0 ''net'',
       Call_AccountDetail ''GA''])"
  by (simp add: eval_defs)

lemma run_hash_fails:
  "ServeHTTP world_hash_fails handler0 ''c'' =
     (serverError,
      [Call_ReadChallengeTx ''c'' ''S1'' ''net'' ''auth'' [''home''],
       Call_ReadChallengeTx ''c'' ''S2'' ''net'' ''auth'' [''home''],
       Call_HashHex tx0 ''net''])"
  by (simp add: eval_defs)

lemma run_bad_key:
  "ServeHTTP world_bad_key handler0 ''c'' =
     (serverError,
      [Call_ReadChallengeTx ''c'' ''S1'' ''net'' ''auth'' [''home''],
       Call_ReadChallengeTx ''c'' ''S2'' ''net'' ''auth'' [''home''],
       Call_HashHex tx0 ''net'',
       Call_AccountDetail ''GA'',
       Call_VerifyChallengeTxThreshold ''c'' ''S2'' ''net'' ''auth'' [''home''] 30 (SignerSummary account0),
       Call_NewSigner \<lparr>Algorithm = ''ES256'', Key = ''k''\<rparr>])"
  by (simp add: eval_defs)

lemma run_sign_fails:
  "ServeHTTP world_sign_fails handler0 ''c'' =
     (serverError,
      [Call_ReadChallengeTx ''c'' ''S1'' ''net'' ''auth'' [''home''],
       Call_ReadChallengeTx ''c'' ''S2'' ''net'' ''auth'' [''home''],
       Call_HashHex tx0 ''net'',
       Call_AccountDetail ''GA'',
       Call_VerifyChallengeTxThreshold ''c'' ''S2'' ''net'' ''auth'' [''home''] 30 (SignerSummary account0),
       Call_NewSigner \<lparr>Algorithm = ''ES256'', Key = ''k''\<rparr>,
       Call_CompactSerialize ''ES256''
         \<lparr>Issuer = ''iss'', Subject = ''GA'', IssuedAt = Some 1000, Expiry = Some 1300\<rparr>])"
  by (simp add: eval_defs)

lemma jwk0: "JWK handler0 = \<lparr>Algorithm = ''ES256'', Key = ''k''\<rparr>"
  by (simp add: handler0_def)

lemma claims0:
  "tokenClaims handler0 tx0 ''GA'' =
     \<lparr>Issuer = ''iss'', Subject = ''GA'', IssuedAt = Some 1000, Expiry = Some 1300\<rparr>"
  by (simp add: eval_defs)

lemma run_subsecond:
  "ServeHTTP world0 handler_subsecond ''c'' =
     (ok \<lparr>Token = ''ES256GA''\<rparr>,
      [Call_ReadChallengeTx ''c'' ''S1'' ''net'' ''auth'' [''home''],
       Call_ReadChallengeTx ''c'' ''S2'' ''net'' ''auth'' [''home''],
       Call_HashHex tx0 ''net'',
       Call_AccountDetail ''GA'',
       Call_VerifyChallengeTxThreshold ''c'' ''S2'' ''net'' ''auth'' [''home''] 30 (SignerSummary account0),
       Call_NewSigner \<lparr>Algorithm = ''ES256'', Key = ''k''\<rparr>,
       Call_CompactSerialize ''ES256''
         \<lparr>Issuer = ''iss'', Subject = ''GA'', IssuedAt = Some 1000, Expiry = Some 1001\<rparr>])"
  by (simp add: eval_defs)

lemma run_other_bytes:
  "ServeHTTP world_other_bytes handler0 ''c'' =
     (ok \<lparr>Token = ''ES256GA2''\<rparr>, snd (ServeHTTP world0 handler0 ''c''))"
  by (simp add: run_ok) (simp add: eval_defs)

text \<open>A parser that returns neither an error nor a transaction makes the handler
  dereference nil.\<close>

lemma nil_transaction_panics:
  "fst (ServeHTTP (world0\<lparr>ReadChallengeTx := \<lambda>raw a np d hs. parse0\<lparr>rc_tx := None\<rparr>\<rparr>) handler0 ''c'') = panic"
  by (simp add: eval_defs)




lemma run_missing:
  "ServeHTTP world_missing handler0 ''c'' =
     (unauthorized,
      [Call_ReadChallengeTx ''c'' ''S1'' ''net'' ''auth'' [''home''],
       Call_ReadChallengeTx ''c'' ''S2'' ''net'' ''auth'' [''home''],
       Call_HashHex tx0 ''net'',
       Call_AccountDetail ''GA''])"
  by (simp add: eval_defs)

lemma run_missing_allowed:
  "ServeHTTP world_missing handler_allow ''c'' =
     (ok \<lparr>Token = ''ES256GA''\<rparr>,
      [Call_ReadChallengeTx ''c'' ''S1'' ''net'' ''auth'' [''home''],
       Call_ReadChallengeTx ''c'' ''S2'' ''net'' ''auth'' [''home''],
       Call_HashHex tx0 ''net'',
       Call_AccountDetail ''GA'',
       Call_VerifyChallengeTxSigners ''c'' ''S2'' ''net'' ''auth'' [''home''] [''GA''],
       Call_NewSigner \<lparr>Algorithm = ''ES256'', Key = ''k''\<rparr>,
       Call_CompactSerialize ''ES256''
         \<lparr>Issuer = ''iss'', Subject = ''GA'', IssuedAt = Some 1000, Expiry = Some 1300\<rparr>])"
  by (simp add: eval_defs)

lemma run_missing_unsigned:
  "ServeHTTP world_missing_unsigned handler_allow ''c'' =
     (unauthorized,
      [Call_ReadChallengeTx ''c'' ''S1'' ''net'' ''auth'' [''home''],
       Call_HashHex tx0 ''net'',
       Call_AccountDetail ''GC'',
       Call_VerifyChallengeTxSigners ''c'' ''S1'' ''net'' ''auth'' [''home''] [''GC'']])"
  by (simp add: eval_defs)

lemma run_missing_bad_key:
  "ServeHTTP world_missing_bad_key handler_allow ''c'' =
     (serverError,
      [Call_ReadChallengeTx ''c'' ''S1'' ''net'' ''auth'' [''home''],
       Call_ReadChallengeTx ''c'' ''S2'' ''net'' ''auth'' [''home''],
       Call_HashHex tx0 ''net'',
       Call_AccountDetail ''GA'',
       Call_VerifyChallengeTxSigners ''c'' ''S2'' ''net'' ''auth'' [''home''] [''GA''],
       Call_NewSigner \<lparr>Algorithm = ''ES256'', Key = ''k''\<rparr>])"
  by (simp add: eval_defs)

lemma weights0:
  "verifiedWeight valid0 tx0 (SignerSummary account0) = 30"
  "selfSigned valid0 tx0 ''GA''"
  "\<not> selfSigned valid0 tx0 ''GC''"
  "HighThreshold (Thresholds account0) = 30"
  "signingSucceeds world0 handler0 tx0 ''GA''"
  "signingSucceeds world_missing handler_allow tx0 ''GA''"
  by (simp_all add: eval_defs signingSucceeds_def)


lemma selected0:
  "Decode world0 ''c'' = Inr \<lparr>Transaction = ''c''\<rparr>"
  "range_SigningAddresses world0 handler0 \<lparr>Transaction = ''c''\<rparr> (SigningAddresses handler0) (vars0, []) =
     (\<lparr>tx = Some tx0, clientAccountID = ''GA'', signingAddress = Some ''S2'',
       homeDomain = ''home'', err = None\<rparr>,
      [Call_ReadChallengeTx ''c'' ''S1'' ''net'' ''auth'' [''home''],
       Call_ReadChallengeTx ''c'' ''S2'' ''net'' ''auth'' [''home'']])"
  by (simp_all add: world0_def handler0_def vars0_def parse0_def noparse_def Let_def)

lemma handler0_fields:
  "NetworkPassphrase handler0 = ''net''" "Domain' handler0 = ''auth''" "HomeDomains handler0 = [''home'']"
  "NetworkPassphrase handler_allow = ''net''" "Domain' handler_allow = ''auth''"
  "HomeDomains handler_allow = [''home'']" "AllowAccountsThatDoNotExist handler_allow"
  "\<not> AllowAccountsThatDoNotExist handler0"
  by (simp_all add: handler0_def handler_allow_def)

section \<open>The claims\<close>

subsection \<open>C1: the claims of the token\<close>

text \<open>
  Claim C1, as amended. The handler reads no clock. For every token it issues, exactly
  one claim set was signed, the token is its serialization, its subject is the client
  account parsed from the challenge, and, as long as Go's \<^verbatim>\<open>int64\<close> seconds do not
  overflow: its \<^verbatim>\<open>IssuedAt\<close> is the minimum time bound of the challenge transaction
  (unless that is Go's zero time, for which \<^verbatim>\<open>jwt.NewNumericDate\<close> returns nil); its
  \<^verbatim>\<open>Expiry\<close> is that bound plus the configured duration rounded down to whole seconds
  (a \<^verbatim>\<open>NumericDate\<close> holds seconds, the duration is in nanoseconds); so for a duration
  of \<open>k\<close> whole seconds the expiry is the minimum time bound plus \<open>k\<close>.

  The claim as stated, expiry minus issuedAt equal to the configured duration exactly,
  fails for a duration that is not a whole number of seconds: with a duration of 1.5
  seconds and a minimum time bound of 1000 the claims are issued at 1000 and expire at
  1001.
\<close>

theorem token_claims:
  assumes issued: "ServeHTTP env h r = (ok res, cs)"
  shows "\<exists>req v cs0 t c.
           Decode env r = Inr req
         \<and> range_SigningAddresses env h req (SigningAddresses h) (vars0, []) = (v, cs0)
         \<and> tx v = Some t
         \<and> signedClaims cs = [c] \<and> carries env cs res c
         \<and> Issuer c = JWTIssuer h \<and> Subject c = clientAccountID v
         \<and> (no_overflow (MinTime (Timebounds t)) (JWTExpiresIn h) \<longrightarrow>
              (MinTime (Timebounds t) \<noteq> - unixToInternal \<longrightarrow>
                 IssuedAt c = Some (MinTime (Timebounds t)))
            \<and> (MinTime (Timebounds t) + JWTExpiresIn h div 1000000000 \<noteq> - unixToInternal \<longrightarrow>
                 Expiry c = Some (MinTime (Timebounds t) + JWTExpiresIn h div 1000000000))
            \<and> (\<forall>k. JWTExpiresIn h = k * 1000000000 \<and> MinTime (Timebounds t) + k \<noteq> - unixToInternal \<longrightarrow>
                 Expiry c = Some (MinTime (Timebounds t) + k)))"
proof -
  obtain req v cs0 s t cs3 jws where
    p: "Decode env r = Inr req"
    "range_SigningAddresses env h req (SigningAddresses h) (vars0, []) = (v, cs0)"
    and sel: "signingAddress v = Some s"
    and t: "tx v = Some t"
    and ns: "NewSigner env (JWK h) = Inr jws"
    and ser: "CompactSerialize env jws (tokenClaims h t (clientAccountID v)) = Inr (Token res)"
    and cs: "cs = cs3 @ [Call_NewSigner (JWK h), Call_CompactSerialize jws (tokenClaims h t (clientAccountID v))]"
    and n': "newSignerCalls cs3 = []"
    and n: "signedClaims cs3 = []"
    by (rule issued_path [OF issued])
  let ?c = "tokenClaims h t (clientAccountID v)"
  have "signedClaims cs = [?c]" using cs n by (simp add: signedClaims_append)
  moreover have "carries env cs res ?c" using cs ser by (simp add: carries_def)
  moreover have "Issuer ?c = JWTIssuer h" "Subject ?c = clientAccountID v"
    by (simp_all add: tokenClaims_def Let_def)
  moreover have "MinTime (Timebounds t) \<noteq> - unixToInternal \<longrightarrow>
                 IssuedAt ?c = Some (MinTime (Timebounds t))"
    by (simp add: claims_times)
  moreover have "MinTime (Timebounds t) + JWTExpiresIn h div 1000000000 \<noteq> - unixToInternal \<longrightarrow>
                 Expiry ?c = Some (MinTime (Timebounds t) + JWTExpiresIn h div 1000000000)"
    by (simp add: claims_times)
  moreover have "\<forall>k. JWTExpiresIn h = k * 1000000000 \<and> MinTime (Timebounds t) + k \<noteq> - unixToInternal \<longrightarrow>
                 Expiry ?c = Some (MinTime (Timebounds t) + k)"
    by (simp add: claims_times)
  ultimately show ?thesis using p t by blast
qed

theorem token_claims_witness:
  "ServeHTTP world0 handler0 ''c'' = (ok \<lparr>Token = ''ES256GA''\<rparr>, snd (ServeHTTP world0 handler0 ''c''))
   \<and> no_overflow (MinTime (Timebounds tx0)) (JWTExpiresIn handler0)
   \<and> JWTExpiresIn handler0 = 300 * 1000000000
   \<and> (\<exists>c. signedClaims (snd (ServeHTTP world0 handler0 ''c'')) = [c]
          \<and> carries world0 (snd (ServeHTTP world0 handler0 ''c'')) \<lparr>Token = ''ES256GA''\<rparr> c
          \<and> Subject c = ''GA'' \<and> IssuedAt c = Some 1000 \<and> Expiry c = Some (1000 + 300))"
proof -
  have run: "ServeHTTP world0 handler0 ''c'' = (ok \<lparr>Token = ''ES256GA''\<rparr>, snd (ServeHTTP world0 handler0 ''c''))"
    by (simp add: run_ok)
  have range: "no_overflow (MinTime (Timebounds tx0)) (JWTExpiresIn handler0)"
    by (simp add: no_overflow_def int64_def tx0_def handler0_def unixToInternal_def)
  have dur: "JWTExpiresIn handler0 = 300 * 1000000000" by (simp add: handler0_def)
  have loop: "range_SigningAddresses world0 handler0 \<lparr>Transaction = ''c''\<rparr> (SigningAddresses handler0) (vars0, []) =
                (\<lparr>tx = Some tx0, clientAccountID = ''GA'', signingAddress = Some ''S2'',
                  homeDomain = ''home'', err = None\<rparr>,
                 [Call_ReadChallengeTx ''c'' ''S1'' ''net'' ''auth'' [''home''],
                  Call_ReadChallengeTx ''c'' ''S2'' ''net'' ''auth'' [''home'']])"
    by (simp add: world0_def handler0_def vars0_def parse0_def noparse_def Let_def)
  have dec: "Decode world0 ''c'' = Inr \<lparr>Transaction = ''c''\<rparr>" by (simp add: world0_def)
  from token_claims [OF run] obtain req v cs0 t c where
    a: "Decode world0 ''c'' = Inr req"
       "range_SigningAddresses world0 handler0 req (SigningAddresses handler0) (vars0, []) = (v, cs0)"
       "tx v = Some t"
    and b: "signedClaims (snd (ServeHTTP world0 handler0 ''c'')) = [c]"
       "carries world0 (snd (ServeHTTP world0 handler0 ''c'')) \<lparr>Token = ''ES256GA''\<rparr> c"
       "Subject c = clientAccountID v"
    and times: "no_overflow (MinTime (Timebounds t)) (JWTExpiresIn handler0) \<longrightarrow>
              (MinTime (Timebounds t) \<noteq> - unixToInternal \<longrightarrow>
                 IssuedAt c = Some (MinTime (Timebounds t)))
            \<and> (MinTime (Timebounds t) + JWTExpiresIn handler0 div 1000000000 \<noteq> - unixToInternal \<longrightarrow>
                 Expiry c = Some (MinTime (Timebounds t) + JWTExpiresIn handler0 div 1000000000))
            \<and> (\<forall>k. JWTExpiresIn handler0 = k * 1000000000 \<and> MinTime (Timebounds t) + k \<noteq> - unixToInternal \<longrightarrow>
                 Expiry c = Some (MinTime (Timebounds t) + k))"
    by blast
  from a dec loop have t: "t = tx0" and v: "clientAccountID v = ''GA''" by auto
  have m: "MinTime (Timebounds tx0) = 1000" by (simp add: tx0_def)
  from times range t m have "IssuedAt c = Some 1000"
    by (simp add: unixToInternal_def)
  moreover from times range t m dur have "Expiry c = Some (1000 + 300)"
    by (simp add: unixToInternal_def)
  ultimately show ?thesis using run range dur b v by auto
qed

theorem token_claims_counterexample:
  "fst (ServeHTTP world0 handler_subsecond ''c'') = ok \<lparr>Token = ''ES256GA''\<rparr>
   \<and> signedClaims (snd (ServeHTTP world0 handler_subsecond ''c'')) =
        [\<lparr>Issuer = ''iss'', Subject = ''GA'', IssuedAt = Some 1000, Expiry = Some 1001\<rparr>]
   \<and> MinTime (Timebounds tx0) = 1000
   \<and> JWTExpiresIn handler_subsecond = 1500000000
   \<and> (1001 - 1000) * 1000000000 \<noteq> JWTExpiresIn handler_subsecond"
  by (simp add: run_subsecond) (simp add: handler_subsecond_def tx0_def)

subsection \<open>C2: existing accounts are verified against the high threshold\<close>




subsection \<open>C3: accounts that do not exist\<close>

text \<open>
  Claim C3, as amended. Take a run in which the handler looked the client account \<open>a\<close> up
  and the ledger answered with a not-found error; \<open>req\<close>, \<open>s\<close> and \<open>c\<close> are as for C2. If
  the flag \<^verbatim>\<open>AllowAccountsThatDoNotExist\<close> is false, the response is \<open>unauthorized\<close> and
  no verification function is called, whatever it would say about the signatures;
  nothing is signed. If the flag is true, the one verification called is
  \<^verbatim>\<open>VerifyChallengeTxSigners\<close> with the client account as the only signer; if it fails the
  response is \<open>unauthorized\<close>; a token is issued if and only if it succeeds and the
  signing of the token succeeds. With the verification function of the specification
  (\<open>verifySignersOnly\<close>): without a valid signature of the client account's own key the
  response is \<open>unauthorized\<close>, and a token is issued if and only if the challenge bears
  such a signature and the signing of the token succeeds.

  The claim as stated, with the flag true a token if and only if the challenge is signed
  by the account's own key, fails when it is so signed and the signer cannot be built:
  the response is \<open>serverError\<close>.
\<close>

theorem missing_account_verification:
  assumes run: "ServeHTTP env h r = (resp, cs)"
    and looked: "Call_AccountDetail a \<in> set cs"
    and missing: "AccountDetail env a = Inl e"
    and notfound: "IsNotFoundError env e"
    and dec: "Decode env r = Inr req"
    and loop: "range_SigningAddresses env h req (SigningAddresses h) (vars0, []) = (v, cs0)"
    and sel: "signingAddress v = Some s"
    and parsed: "tx v = Some c"
  shows "(\<not> AllowAccountsThatDoNotExist h \<longrightarrow>
            resp = unauthorized \<and> filter isVerification cs = []
            \<and> newSignerCalls cs = [] \<and> signedClaims cs = [])
       \<and> (AllowAccountsThatDoNotExist h \<longrightarrow>
             filter isVerification cs =
                 [Call_VerifyChallengeTxSigners (Transaction req) s (NetworkPassphrase h) (Domain' h)
                    (HomeDomains h) [a]]
             \<and> (isl (VerifyChallengeTxSigners env (Transaction req) s (NetworkPassphrase h) (Domain' h)
                       (HomeDomains h) [a]) \<longrightarrow>
                  resp = unauthorized \<and> newSignerCalls cs = [] \<and> signedClaims cs = [])
             \<and> (isToken resp \<longleftrightarrow>
                  \<not> isl (VerifyChallengeTxSigners env (Transaction req) s (NetworkPassphrase h) (Domain' h)
                           (HomeDomains h) [a])
                  \<and> signingSucceeds env h c a)
             \<and> (VerifyChallengeTxSigners env (Transaction req) s (NetworkPassphrase h) (Domain' h)
                   (HomeDomains h) [a] = verifySignersOnly valid c a \<longrightarrow>
                  (\<not> selfSigned valid c a \<longrightarrow> resp = unauthorized)
                \<and> (isToken resp \<longleftrightarrow> selfSigned valid c a \<and> signingSucceeds env h c a)))"
proof -
  note r = reaches_selected [OF run looked dec loop sel parsed]
  note p = r(1) and fl = r(2)
  let ?cs2 = "cs0 @ [Call_HashHex c (NetworkPassphrase h), Call_AccountDetail a]"
  let ?call = "Call_VerifyChallengeTxSigners (Transaction req) s (NetworkPassphrase h) (Domain' h)
                (HomeDomains h) [a]"
  let ?V = "VerifyChallengeTxSigners env (Transaction req) s (NetworkPassphrase h) (Domain' h)
              (HomeDomains h) [a]"
  note none = probes_no_signing [OF p]
  note fm = fromLookup_missing [OF missing notfound, of h req s c ?cs2]
  have off: "\<not> AllowAccountsThatDoNotExist h \<longrightarrow>
            resp = unauthorized \<and> filter isVerification cs = []
            \<and> newSignerCalls cs = [] \<and> signedClaims cs = []"
    using fl fm none by (auto simp: newSignerCalls_append signedClaims_append)
  have on: "AllowAccountsThatDoNotExist h \<longrightarrow>
              filter isVerification cs = [?call]
            \<and> (isl ?V \<longrightarrow> resp = unauthorized \<and> newSignerCalls cs = [] \<and> signedClaims cs = [])
            \<and> (isToken resp \<longleftrightarrow> \<not> isl ?V \<and> signingSucceeds env h c a)"
  proof (intro impI)
    assume allow: "AllowAccountsThatDoNotExist h"
    show "filter isVerification cs = [?call]
            \<and> (isl ?V \<longrightarrow> resp = unauthorized \<and> newSignerCalls cs = [] \<and> signedClaims cs = [])
            \<and> (isToken resp \<longleftrightarrow> \<not> isl ?V \<and> signingSucceeds env h c a)"
    proof (cases ?V)
      case (Inl e')
      with fl fm allow none show ?thesis
        by (auto simp: Let_def newSignerCalls_append signedClaims_append)
    next
      case (Inr sv)
      with fl fm allow
      have it: "issueToken env h c a (?cs2 @ [?call]) = (resp, cs)" by (simp add: Let_def)
      from issueToken_result [OF it] Inr none show ?thesis by simp
    qed
  qed
  have spec: "AllowAccountsThatDoNotExist h \<longrightarrow> ?V = verifySignersOnly valid c a \<longrightarrow>
                  (\<not> selfSigned valid c a \<longrightarrow> resp = unauthorized)
                \<and> (isToken resp \<longleftrightarrow> selfSigned valid c a \<and> signingSucceeds env h c a)"
    using on verifySignersOnly_fails [of valid c a] by auto
  from off on spec show ?thesis by blast
qed

theorem missing_account_verification_witness:
  "Call_AccountDetail ''GA'' \<in> set (snd (ServeHTTP world_missing handler0 ''c''))
   \<and> AccountDetail world_missing ''GA'' = Inl ''404''
   \<and> IsNotFoundError world_missing ''404''
   \<and> \<not> AllowAccountsThatDoNotExist handler0
   \<and> selfSigned valid0 tx0 ''GA''
   \<and> fst (ServeHTTP world_missing handler0 ''c'') = unauthorized
   \<and> filter isVerification (snd (ServeHTTP world_missing handler0 ''c'')) = []
   \<and> Call_AccountDetail ''GA'' \<in> set (snd (ServeHTTP world_missing handler_allow ''c''))
   \<and> AllowAccountsThatDoNotExist handler_allow
   \<and> signingSucceeds world_missing handler_allow tx0 ''GA''
   \<and> isToken (fst (ServeHTTP world_missing handler_allow ''c''))
   \<and> filter isVerification (snd (ServeHTTP world_missing handler_allow ''c'')) =
        [Call_VerifyChallengeTxSigners ''c'' ''S2'' ''net'' ''auth'' [''home''] [''GA'']]
   \<and> Call_AccountDetail ''GC'' \<in> set (snd (ServeHTTP world_missing_unsigned handler_allow ''c''))
   \<and> AccountDetail world_missing_unsigned ''GC'' = Inl ''404''
   \<and> \<not> selfSigned valid0 tx0 ''GC''
   \<and> fst (ServeHTTP world_missing_unsigned handler_allow ''c'') = unauthorized"
proof -
  let ?req = "\<lparr>Transaction = ''c''\<rparr>"
  let ?v = "\<lparr>tx = Some tx0, clientAccountID = ''GA'', signingAddress = Some ''S2'',
             homeDomain = ''home'', err = None\<rparr>"
  let ?probes = "[Call_ReadChallengeTx ''c'' ''S1'' ''net'' ''auth'' [''home''],
                  Call_ReadChallengeTx ''c'' ''S2'' ''net'' ''auth'' [''home'']]"
  have looked: "Call_AccountDetail ''GA'' \<in> set (snd (ServeHTTP world_missing handler0 ''c''))"
    by (simp add: run_missing)
  have looked': "Call_AccountDetail ''GA'' \<in> set (snd (ServeHTTP world_missing handler_allow ''c''))"
    by (simp add: run_missing_allowed)
  have missing: "AccountDetail world_missing ''GA'' = Inl ''404''" by (simp add: world_missing_def)
  have nf: "IsNotFoundError world_missing ''404''" by (simp add: world_missing_def world0_def)
  have dec: "Decode world_missing ''c'' = Inr ?req" by (simp add: world_missing_def world0_def)
  have loop: "range_SigningAddresses world_missing handler0 ?req (SigningAddresses handler0) (vars0, [])
                = (?v, ?probes)"
    using selected0(2) loop_same [of world_missing world0] by (simp add: world_missing_def)
  have loop': "range_SigningAddresses world_missing handler_allow ?req (SigningAddresses handler_allow) (vars0, [])
                = (?v, ?probes)"
    using loop by (simp add: handler_allow_def loop_flag)
  have sel: "signingAddress ?v = Some ''S2''" and parsed: "tx ?v = Some tx0" by simp_all
  note off = missing_account_verification
    [OF surjective_pairing looked missing nf dec loop sel parsed, of valid0, unfolded handler0_fields]
  note on = missing_account_verification
    [OF surjective_pairing looked' missing nf dec loop' sel parsed, of valid0, unfolded handler0_fields]
  have link: "VerifyChallengeTxSigners world_missing (Transaction ?req) ''S2'' ''net'' ''auth'' [''home''] [''GA'']
                = verifySignersOnly valid0 tx0 ''GA''"
    by (simp add: world_missing_def world0_def)
  from off handler0_fields have a: "fst (ServeHTTP world_missing handler0 ''c'') = unauthorized"
    and b: "filter isVerification (snd (ServeHTTP world_missing handler0 ''c'')) = []" by simp_all
  from on link weights0 handler0_fields have c: "isToken (fst (ServeHTTP world_missing handler_allow ''c''))"
    by (simp add: verifySignersOnly_fails)
  from on handler0_fields have d: "filter isVerification (snd (ServeHTTP world_missing handler_allow ''c'')) =
        [Call_VerifyChallengeTxSigners ''c'' ''S2'' ''net'' ''auth'' [''home''] [''GA'']]" by simp
  let ?u = "\<lparr>tx = Some tx0, clientAccountID = ''GC'', signingAddress = Some ''S1'',
             homeDomain = ''home'', err = None\<rparr>"
  have looked2: "Call_AccountDetail ''GC'' \<in> set (snd (ServeHTTP world_missing_unsigned handler_allow ''c''))"
    by (simp add: run_missing_unsigned)
  have missing2: "AccountDetail world_missing_unsigned ''GC'' = Inl ''404''"
    and nf2: "IsNotFoundError world_missing_unsigned ''404''"
    and dec2: "Decode world_missing_unsigned ''c'' = Inr ?req"
    by (simp_all add: world_missing_unsigned_def world0_def)
  have loop2: "range_SigningAddresses world_missing_unsigned handler_allow ?req
                 (SigningAddresses handler_allow) (vars0, [])
                = (?u, [Call_ReadChallengeTx ''c'' ''S1'' ''net'' ''auth'' [''home'']])"
    by (simp add: world_missing_unsigned_def handler_allow_def handler0_def vars0_def parse0_def Let_def)
  have sel2: "signingAddress ?u = Some ''S1''" and parsed2: "tx ?u = Some tx0" by simp_all
  note un = missing_account_verification
    [OF surjective_pairing looked2 missing2 nf2 dec2 loop2 sel2 parsed2, of valid0, unfolded handler0_fields]
  have link2: "VerifyChallengeTxSigners world_missing_unsigned (Transaction ?req) ''S1'' ''net'' ''auth''
                 [''home''] [''GC''] = verifySignersOnly valid0 tx0 ''GC''"
    by (simp add: world_missing_unsigned_def world0_def)
  from un link2 weights0 handler0_fields
  have e: "fst (ServeHTTP world_missing_unsigned handler_allow ''c'') = unauthorized"
    by (simp add: verifySignersOnly_fails)
  from looked looked' missing nf handler0_fields weights0 a b c d looked2 missing2 e show ?thesis by simp
qed

theorem missing_account_verification_counterexample:
  "Call_AccountDetail ''GA'' \<in> set (snd (ServeHTTP world_missing_bad_key handler_allow ''c''))
   \<and> AccountDetail world_missing_bad_key ''GA'' = Inl ''404''
   \<and> IsNotFoundError world_missing_bad_key ''404''
   \<and> AllowAccountsThatDoNotExist handler_allow
   \<and> VerifyChallengeTxSigners world_missing_bad_key ''c'' ''S2'' ''net'' ''auth'' [''home''] [''GA'']
      = verifySignersOnly valid0 tx0 ''GA''
   \<and> selfSigned valid0 tx0 ''GA''
   \<and> fst (ServeHTTP world_missing_bad_key handler_allow ''c'') = serverError
   \<and> \<not> isToken (fst (ServeHTTP world_missing_bad_key handler_allow ''c''))"
  by (simp add: run_missing_bad_key weights0)
     (simp add: world_missing_bad_key_def world0_def handler_allow_def)

subsection \<open>C4: the selection of the signing address\<close>

text \<open>
  Claim C4. The loop tries the configured signing addresses in their configured order,
  each against the raw challenge of the request. When none validates, the handler
  answers \<open>badRequest\<close> and the probes of all addresses are the only calls it made: no
  account lookup, no verification, no signing. When \<open>s\<close> is the first address that
  validates (the addresses \<open>pre\<close> before it do not), the loop ends with \<open>s\<close> in
  \<^verbatim>\<open>signingAddress\<close> and with the transaction, the account identifier and the home domain
  that the probe of \<open>s\<close> returned in \<^verbatim>\<open>tx\<close>, \<^verbatim>\<open>clientAccountID\<close> and \<^verbatim>\<open>homeDomain\<close>; the calls
  start with the probes of \<open>pre\<close> and of \<open>s\<close> in that order, no address after \<open>s\<close> is
  probed, and every later call uses \<open>s\<close>, the transaction and the account identifier
  that the probe of \<open>s\<close> returned. The later stages do run with them: when that home
  domain is not empty and the transaction is \<open>t\<close>, the response is not \<open>badRequest\<close>, the
  next call hashes \<open>t\<close>; if the hash succeeds, the account that is looked up is the one
  the probe of \<open>s\<close> returned; if the ledger has it, the verification against its high
  threshold is called with \<open>s\<close>; if the ledger does not have it and the flag is set, the
  verification against the account's own key is called with \<open>s\<close> and that account; and
  the claims of a token that is issued are built from \<open>t\<close> and that account.
\<close>

theorem signing_key_selection:
  assumes dec: "Decode env r = Inr req" and run: "ServeHTTP env h r = (resp, cs)"
  shows "((\<forall>x\<in>set (SigningAddresses h). \<not> validates env h req x) \<longrightarrow>
            resp = badRequest \<and> cs = map (probe h req) (SigningAddresses h))
       \<and> (\<forall>pre s post.
            SigningAddresses h = pre @ s # post \<and> (\<forall>x\<in>set pre. \<not> validates env h req x)
              \<and> validates env h req s \<longrightarrow>
            range_SigningAddresses env h req (SigningAddresses h) (vars0, []) =
              (\<lparr>tx = rc_tx (parsed env h req s),
                clientAccountID = rc_clientAccountID (parsed env h req s),
                signingAddress = Some s,
                homeDomain = rc_homeDomain (parsed env h req s),
                err = None\<rparr>,
               map (probe h req) pre @ [probe h req s])
          \<and> (\<exists>rest. cs = map (probe h req) pre @ probe h req s # rest
                \<and> list_all (usesSelection s (parsed env h req s)) rest
                \<and> (\<forall>t. rc_homeDomain (parsed env h req s) \<noteq> [] \<and> rc_tx (parsed env h req s) = Some t \<longrightarrow>
                      resp \<noteq> badRequest
                    \<and> take 1 rest = [Call_HashHex t (NetworkPassphrase h)]
                    \<and> (\<not> isl (HashHex env t (NetworkPassphrase h)) \<longrightarrow>
                         take 2 rest = [Call_HashHex t (NetworkPassphrase h),
                                        Call_AccountDetail (rc_clientAccountID (parsed env h req s))])
                    \<and> (\<forall>acct. \<not> isl (HashHex env t (NetworkPassphrase h))
                          \<and> AccountDetail env (rc_clientAccountID (parsed env h req s)) = Inr acct \<longrightarrow>
                         take 3 rest =
                           [Call_HashHex t (NetworkPassphrase h),
                            Call_AccountDetail (rc_clientAccountID (parsed env h req s)),
                            Call_VerifyChallengeTxThreshold (Transaction req) s (NetworkPassphrase h)
                              (Domain' h) (HomeDomains h) (HighThreshold (Thresholds acct))
                              (SignerSummary acct)])
                    \<and> (\<forall>e. \<not> isl (HashHex env t (NetworkPassphrase h))
                          \<and> AccountDetail env (rc_clientAccountID (parsed env h req s)) = Inl e
                          \<and> IsNotFoundError env e \<and> AllowAccountsThatDoNotExist h \<longrightarrow>
                         take 3 rest =
                           [Call_HashHex t (NetworkPassphrase h),
                            Call_AccountDetail (rc_clientAccountID (parsed env h req s)),
                            Call_VerifyChallengeTxSigners (Transaction req) s (NetworkPassphrase h)
                              (Domain' h) (HomeDomains h) [rc_clientAccountID (parsed env h req s)]])
                    \<and> (isToken resp \<longrightarrow>
                         signedClaims cs =
                           [tokenClaims h t (rc_clientAccountID (parsed env h req s))]))))"
proof (intro conjI impI allI)
  assume "\<forall>x\<in>set (SigningAddresses h). \<not> validates env h req x"
  then have "find (validates env h req) (SigningAddresses h) = None"
    by (simp add: find_None_iff)
  from ServeHTTP_none [OF dec this] run
  show "resp = badRequest" and "cs = map (probe h req) (SigningAddresses h)" by simp_all
next
  fix pre s post
  assume a: "SigningAddresses h = pre @ s # post \<and> (\<forall>x\<in>set pre. \<not> validates env h req x)
              \<and> validates env h req s"
  then have f: "find (validates env h req) (SigningAddresses h) = Some s"
    and tw: "takeWhile (\<lambda>x. \<not> validates env h req x) (SigningAddresses h) = pre"
    using first_valid [of "SigningAddresses h" pre s post "validates env h req"] by simp_all
  let ?P = "parsed env h req s"
  let ?v = "\<lparr>tx = rc_tx ?P, clientAccountID = rc_clientAccountID ?P,
              signingAddress = Some s, homeDomain = rc_homeDomain ?P, err = None\<rparr>"
  let ?cs0 = "map (probe h req) pre @ [probe h req s]"
  from loop_selected [OF f] tw
  show loop: "range_SigningAddresses env h req (SigningAddresses h) (vars0, []) = (?v, ?cs0)" by simp
  have probes: "list_all isProbe ?cs0" by (rule loop_probes [OF loop])
  have al: "afterLoop env h req ?v ?cs0 = (resp, cs)"
    using ServeHTTP_some [OF dec f] run by (simp add: tw)
  have sel: "signingAddress ?v = Some s" by simp
  from afterLoop_calls [OF al sel]
  obtain rest where cs: "cs = ?cs0 @ rest"
    and "list_all (usesSelection s \<lparr>rc_tx = rc_tx ?P, rc_clientAccountID = rc_clientAccountID ?P,
            rc_homeDomain = rc_homeDomain ?P, rc_err = None\<rparr>) rest"
    by auto
  moreover have "rc_err ?P = None" using a by (simp add: validates_def)
  ultimately have uses: "list_all (usesSelection s ?P) rest" by (cases ?P) auto
  have rest: "drop (length ?cs0) cs = rest" using cs by simp
  have later: "resp \<noteq> badRequest
      \<and> take 1 rest = [Call_HashHex t (NetworkPassphrase h)]
      \<and> (\<not> isl (HashHex env t (NetworkPassphrase h)) \<longrightarrow>
           take 2 rest = [Call_HashHex t (NetworkPassphrase h), Call_AccountDetail (rc_clientAccountID ?P)])
      \<and> (\<forall>acct. \<not> isl (HashHex env t (NetworkPassphrase h))
            \<and> AccountDetail env (rc_clientAccountID ?P) = Inr acct \<longrightarrow>
           take 3 rest =
             [Call_HashHex t (NetworkPassphrase h), Call_AccountDetail (rc_clientAccountID ?P),
              Call_VerifyChallengeTxThreshold (Transaction req) s (NetworkPassphrase h)
                (Domain' h) (HomeDomains h) (HighThreshold (Thresholds acct)) (SignerSummary acct)])
      \<and> (\<forall>e. \<not> isl (HashHex env t (NetworkPassphrase h))
            \<and> AccountDetail env (rc_clientAccountID ?P) = Inl e
            \<and> IsNotFoundError env e \<and> AllowAccountsThatDoNotExist h \<longrightarrow>
           take 3 rest =
             [Call_HashHex t (NetworkPassphrase h), Call_AccountDetail (rc_clientAccountID ?P),
              Call_VerifyChallengeTxSigners (Transaction req) s (NetworkPassphrase h)
                (Domain' h) (HomeDomains h) [rc_clientAccountID ?P]])
      \<and> (isToken resp \<longrightarrow> signedClaims cs = [tokenClaims h t (rc_clientAccountID ?P)])"
    if "rc_homeDomain ?P \<noteq> [] \<and> rc_tx ?P = Some t" for t
  proof -
    from that have hd: "homeDomain ?v \<noteq> []" and tx: "tx ?v = Some t" by simp_all
    note l = afterLoop_selected [OF al sel hd tx probes, unfolded rest]
    from l(1) l(2) l(3) l(4) l(5) l(6) show ?thesis by simp
  qed
  from cs uses later
  show "\<exists>rest. cs = map (probe h req) pre @ probe h req s # rest
                \<and> list_all (usesSelection s ?P) rest
                \<and> (\<forall>t. rc_homeDomain ?P \<noteq> [] \<and> rc_tx ?P = Some t \<longrightarrow>
                      resp \<noteq> badRequest
                    \<and> take 1 rest = [Call_HashHex t (NetworkPassphrase h)]
                    \<and> (\<not> isl (HashHex env t (NetworkPassphrase h)) \<longrightarrow>
                         take 2 rest = [Call_HashHex t (NetworkPassphrase h),
                                        Call_AccountDetail (rc_clientAccountID ?P)])
                    \<and> (\<forall>acct. \<not> isl (HashHex env t (NetworkPassphrase h))
                          \<and> AccountDetail env (rc_clientAccountID ?P) = Inr acct \<longrightarrow>
                         take 3 rest =
                           [Call_HashHex t (NetworkPassphrase h),
                            Call_AccountDetail (rc_clientAccountID ?P),
                            Call_VerifyChallengeTxThreshold (Transaction req) s (NetworkPassphrase h)
                              (Domain' h) (HomeDomains h) (HighThreshold (Thresholds acct))
                              (SignerSummary acct)])
                    \<and> (\<forall>e. \<not> isl (HashHex env t (NetworkPassphrase h))
                          \<and> AccountDetail env (rc_clientAccountID ?P) = Inl e
                          \<and> IsNotFoundError env e \<and> AllowAccountsThatDoNotExist h \<longrightarrow>
                         take 3 rest =
                           [Call_HashHex t (NetworkPassphrase h),
                            Call_AccountDetail (rc_clientAccountID ?P),
                            Call_VerifyChallengeTxSigners (Transaction req) s (NetworkPassphrase h)
                              (Domain' h) (HomeDomains h) [rc_clientAccountID ?P]])
                    \<and> (isToken resp \<longrightarrow>
                         signedClaims cs = [tokenClaims h t (rc_clientAccountID ?P)]))"
    by (intro exI [of _ rest] conjI allI impI) (simp_all)
qed

theorem signing_key_selection_witness:
  "Decode world0 ''c'' = Inr \<lparr>Transaction = ''c''\<rparr>
   \<and> SigningAddresses handler0 = [''S1'', ''S2'']
   \<and> \<not> validates world0 handler0 \<lparr>Transaction = ''c''\<rparr> ''S1''
   \<and> validates world0 handler0 \<lparr>Transaction = ''c''\<rparr> ''S2''
   \<and> parsed world0 handler0 \<lparr>Transaction = ''c''\<rparr> ''S2'' =
        \<lparr>rc_tx = Some tx0, rc_clientAccountID = ''GA'', rc_homeDomain = ''home'', rc_err = None\<rparr>
   \<and> HashHex world0 tx0 ''net'' = Inr ''abcd''
   \<and> AccountDetail world0 ''GA'' = Inr account0
   \<and> range_SigningAddresses world0 handler0 \<lparr>Transaction = ''c''\<rparr> [''S1'', ''S2''] (vars0, []) =
        (\<lparr>tx = Some tx0, clientAccountID = ''GA'', signingAddress = Some ''S2'',
          homeDomain = ''home'', err = None\<rparr>,
         [Call_ReadChallengeTx ''c'' ''S1'' ''net'' ''auth'' [''home''],
          Call_ReadChallengeTx ''c'' ''S2'' ''net'' ''auth'' [''home'']])
   \<and> fst (ServeHTTP world0 handler0 ''c'') \<noteq> badRequest
   \<and> (\<exists>rest. snd (ServeHTTP world0 handler0 ''c'') =
               Call_ReadChallengeTx ''c'' ''S1'' ''net'' ''auth'' [''home'']
               # Call_ReadChallengeTx ''c'' ''S2'' ''net'' ''auth'' [''home''] # rest
          \<and> list_all (usesSelection ''S2'' parse0) rest
          \<and> take 3 rest =
              [Call_HashHex tx0 ''net'', Call_AccountDetail ''GA'',
               Call_VerifyChallengeTxThreshold ''c'' ''S2'' ''net'' ''auth'' [''home''] 30
                 [(''GA'', 20), (''GB'', 10), (''GC'', 5)]])
   \<and> isToken (fst (ServeHTTP world0 handler0 ''c''))
   \<and> signedClaims (snd (ServeHTTP world0 handler0 ''c'')) =
        [\<lparr>Issuer = ''iss'', Subject = ''GA'', IssuedAt = Some 1000, Expiry = Some 1300\<rparr>]
   \<and> ServeHTTP world0 (handler0\<lparr>SigningAddresses := [''S1'']\<rparr>) ''c'' =
        (badRequest, [Call_ReadChallengeTx ''c'' ''S1'' ''net'' ''auth'' [''home'']])"
proof -
  let ?req = "\<lparr>Transaction = ''c''\<rparr>"
  let ?resp = "fst (ServeHTTP world0 handler0 ''c'')"
  let ?cs = "snd (ServeHTTP world0 handler0 ''c'')"
  have dec: "Decode world0 ''c'' = Inr ?req" by (simp add: world0_def)
  have addrs: "SigningAddresses handler0 = [''S1'', ''S2'']" by (simp add: handler0_def)
  have p0: "parsed world0 handler0 ?req ''S2'' =
        \<lparr>rc_tx = Some tx0, rc_clientAccountID = ''GA'', rc_homeDomain = ''home'', rc_err = None\<rparr>"
    by (simp add: world0_validates parse0_def)
  have hash: "HashHex world0 tx0 ''net'' = Inr ''abcd''"
    and found: "AccountDetail world0 ''GA'' = Inr account0" by (simp_all add: world0_def)
  have tok: "isToken ?resp" by (simp add: run_ok)
  have prem: "SigningAddresses handler0 = [''S1''] @ ''S2'' # []
              \<and> (\<forall>x\<in>set [''S1'']. \<not> validates world0 handler0 ?req x)
              \<and> validates world0 handler0 ?req ''S2''"
    using addrs world0_validates by simp
  note sel = signing_key_selection [OF dec surjective_pairing, THEN conjunct2, rule_format, OF prem]
  from sel have loop: "range_SigningAddresses world0 handler0 ?req [''S1'', ''S2''] (vars0, []) =
        (\<lparr>tx = Some tx0, clientAccountID = ''GA'', signingAddress = Some ''S2'',
          homeDomain = ''home'', err = None\<rparr>,
         [Call_ReadChallengeTx ''c'' ''S1'' ''net'' ''auth'' [''home''],
          Call_ReadChallengeTx ''c'' ''S2'' ''net'' ''auth'' [''home'']])"
    by (simp add: p0 addrs probe_def handler0_fields)
  from sel have later: "?resp \<noteq> badRequest
     \<and> (\<exists>rest. ?cs = Call_ReadChallengeTx ''c'' ''S1'' ''net'' ''auth'' [''home'']
               # Call_ReadChallengeTx ''c'' ''S2'' ''net'' ''auth'' [''home''] # rest
          \<and> list_all (usesSelection ''S2'' parse0) rest
          \<and> take 3 rest =
              [Call_HashHex tx0 ''net'', Call_AccountDetail ''GA'',
               Call_VerifyChallengeTxThreshold ''c'' ''S2'' ''net'' ''auth'' [''home''] 30
                 [(''GA'', 20), (''GB'', 10), (''GC'', 5)]])
     \<and> signedClaims ?cs = [\<lparr>Issuer = ''iss'', Subject = ''GA'', IssuedAt = Some 1000, Expiry = Some 1300\<rparr>]"
    using tok hash found
    by (simp add: p0 probe_def handler0_fields claims0 account0_def parse0_def) blast
  let ?h = "handler0\<lparr>SigningAddresses := [''S1'']\<rparr>"
  have nv: "\<forall>x\<in>set (SigningAddresses ?h). \<not> validates world0 ?h ?req x"
    by (simp add: validates_def parsed_def world0_def noparse_def)
  have run': "ServeHTTP world0 ?h ''c'' = (fst (ServeHTTP world0 ?h ''c''), snd (ServeHTTP world0 ?h ''c''))"
    by simp
  note none = signing_key_selection [OF dec run', THEN conjunct1, rule_format]
  have two: "ServeHTTP world0 ?h ''c'' = (badRequest, [Call_ReadChallengeTx ''c'' ''S1'' ''net'' ''auth'' [''home'']])"
    using none nv by (simp add: prod_eq_iff probe_def handler0_def)
  from dec addrs world0_validates p0 hash found loop later tok two show ?thesis by simp
qed

subsection \<open>C5: an empty home domain\<close>

text \<open>
  Claim C5. When the challenge validates against a signing address \<open>s\<close> (the first one
  that does) and the home domain parsed with it is the empty string, the handler
  answers \<open>badRequest\<close>. The probes are the only calls: nothing is verified, whatever
  the verification functions would say about the signatures, and nothing is signed.
\<close>

theorem empty_home_domain:
  assumes dec: "Decode env r = Inr req"
    and addrs: "SigningAddresses h = pre @ s # post"
    and pre: "\<forall>x\<in>set pre. \<not> validates env h req x"
    and s: "validates env h req s"
    and empty: "rc_homeDomain (parsed env h req s) = []"
  shows "ServeHTTP env h r = (badRequest, map (probe h req) pre @ [probe h req s])"
proof -
  have f: "find (validates env h req) (SigningAddresses h) = Some s"
    and tw: "takeWhile (\<lambda>x. \<not> validates env h req x) (SigningAddresses h) = pre"
    using first_valid [OF addrs pre] s by simp_all
  show ?thesis
    using ServeHTTP_some [OF dec f] empty by (simp add: tw afterLoop_def)
qed

theorem empty_home_domain_witness:
  "Decode (world0\<lparr>ReadChallengeTx := \<lambda>raw a np d hs. parse0\<lparr>rc_homeDomain := []\<rparr>\<rparr>) ''c'' = Inr \<lparr>Transaction = ''c''\<rparr>
   \<and> SigningAddresses handler0 = [] @ ''S1'' # [''S2'']
   \<and> validates (world0\<lparr>ReadChallengeTx := \<lambda>raw a np d hs. parse0\<lparr>rc_homeDomain := []\<rparr>\<rparr>) handler0 \<lparr>Transaction = ''c''\<rparr> ''S1''
   \<and> rc_homeDomain (parsed (world0\<lparr>ReadChallengeTx := \<lambda>raw a np d hs. parse0\<lparr>rc_homeDomain := []\<rparr>\<rparr>) handler0 \<lparr>Transaction = ''c''\<rparr> ''S1'') = []
   \<and> ServeHTTP (world0\<lparr>ReadChallengeTx := \<lambda>raw a np d hs. parse0\<lparr>rc_homeDomain := []\<rparr>\<rparr>) handler0 ''c'' =
       (badRequest, [Call_ReadChallengeTx ''c'' ''S1'' ''net'' ''auth'' [''home'']])"
proof -
  let ?w = "world0\<lparr>ReadChallengeTx := \<lambda>raw a np d hs. parse0\<lparr>rc_homeDomain := []\<rparr>\<rparr>"
  let ?req = "\<lparr>Transaction = ''c''\<rparr>"
  have dec: "Decode ?w ''c'' = Inr ?req" by (simp add: world0_def)
  have addrs: "SigningAddresses handler0 = [] @ ''S1'' # [''S2'']" by (simp add: handler0_def)
  have pre: "\<forall>x\<in>set []. \<not> validates ?w handler0 ?req x" by simp
  have s: "validates ?w handler0 ?req ''S1''" by (simp add: validates_def parsed_def parse0_def)
  have empty: "rc_homeDomain (parsed ?w handler0 ?req ''S1'') = []" by (simp add: parsed_def)
  from empty_home_domain [OF dec addrs pre s empty] dec addrs s empty
  show ?thesis by (simp add: probe_def handler0_def)
qed

subsection \<open>C6: a failing account lookup\<close>

text \<open>
  Claim C6. When the handler looks an account up and the lookup returns an error that
  \<^verbatim>\<open>auroraclient.IsNotFoundError\<close> does not recognise, the handler answers \<open>serverError\<close>,
  which is neither a token nor \<open>unauthorized\<close>. The lookup is its last call: no
  verification function is called (so the account is not treated as missing, whatever
  the flag \<^verbatim>\<open>AllowAccountsThatDoNotExist\<close> says), no signer is built, nothing is signed.
\<close>

theorem lookup_failure:
  assumes run: "ServeHTTP env h r = (resp, cs)"
    and looked: "Call_AccountDetail a \<in> set cs"
    and failed: "AccountDetail env a = Inl e"
    and other: "\<not> IsNotFoundError env e"
  shows "resp = serverError \<and> last cs = Call_AccountDetail a \<and> filter isVerification cs = []
       \<and> newSignerCalls cs = [] \<and> signedClaims cs = []"
proof -
  obtain req v cs0 s t hash where dec: "Decode env r = Inr req"
    and l: "range_SigningAddresses env h req (SigningAddresses h) (vars0, []) = (v, cs0)"
    and p: "list_all isProbe cs0"
    and v: "signingAddress v = Some s" "homeDomain v \<noteq> []" "tx v = Some t" "clientAccountID v = a"
    and hh: "HashHex env t (NetworkPassphrase h) = Inr hash"
    and fl: "fromLookup env h req s t a (cs0 @ [Call_HashHex t (NetworkPassphrase h), Call_AccountDetail a])
       = (resp, cs)"
    by (rule reaches_lookup [OF run looked])
  from fl failed other
  have "resp = serverError" and "cs = cs0 @ [Call_HashHex t (NetworkPassphrase h), Call_AccountDetail a]"
    by (simp_all add: fromLookup_def lookupAccount_def)
  with probes_no_signing [OF p] show ?thesis
    by (simp add: newSignerCalls_append signedClaims_append)
qed


theorem lookup_failure_witness:
  "Call_AccountDetail ''GA'' \<in> set (snd (ServeHTTP world_lookup_fails handler_allow ''c''))
   \<and> AccountDetail world_lookup_fails ''GA'' = Inl ''500''
   \<and> \<not> IsNotFoundError world_lookup_fails ''500''
   \<and> AllowAccountsThatDoNotExist handler_allow
   \<and> fst (ServeHTTP world_lookup_fails handler_allow ''c'') = serverError
   \<and> last (snd (ServeHTTP world_lookup_fails handler_allow ''c'')) = Call_AccountDetail ''GA''
   \<and> filter isVerification (snd (ServeHTTP world_lookup_fails handler_allow ''c'')) = []"
proof -
  have looked: "Call_AccountDetail ''GA'' \<in> set (snd (ServeHTTP world_lookup_fails handler_allow ''c''))"
    by (simp add: run_lookup_fails)
  have failed: "AccountDetail world_lookup_fails ''GA'' = Inl ''500''"
    by (simp add: world_lookup_fails_def)
  have other: "\<not> IsNotFoundError world_lookup_fails ''500''"
    by (simp add: world_lookup_fails_def world0_def)
  have flag: "AllowAccountsThatDoNotExist handler_allow" by (simp add: handler_allow_def)
  from lookup_failure [OF surjective_pairing looked failed other] looked failed other flag
  show ?thesis by simp
qed

subsection \<open>C7: failures of the hash and of the signer\<close>

text \<open>
  Claim C7. In every run: if the handler hashed the transaction and the hash failed, if
  it built the signer and that failed, or if it signed the claims and that failed, the
  response is \<open>serverError\<close>, which is not a token. The signer is built at most once
  and the claims are signed at most once: nothing is tried again.
\<close>

theorem signing_failures:
  assumes run: "ServeHTTP env h r = (resp, cs)"
  shows "(\<forall>t np e. Call_HashHex t np \<in> set cs \<and> HashHex env t np = Inl e \<longrightarrow> resp = serverError)
       \<and> (\<forall>k e. Call_NewSigner k \<in> set cs \<and> NewSigner env k = Inl e \<longrightarrow> resp = serverError)
       \<and> (\<forall>jws c e. Call_CompactSerialize jws c \<in> set cs \<and> CompactSerialize env jws c = Inl e \<longrightarrow>
            resp = serverError)
       \<and> length (newSignerCalls cs) \<le> 1 \<and> length (signedClaims cs) \<le> 1"
proof (cases "Decode env r")
  case (Inl e)
  with run show ?thesis by (auto simp: ServeHTTP_def)
next
  case (Inr req)
  from ServeHTTP_decoded [OF Inr, of h] obtain v cs0
    where a: "ServeHTTP env h r = afterLoop env h req v cs0" and p: "list_all isProbe cs0" by blast
  from a run have "afterLoop env h req v cs0 = (resp, cs)" by simp
  then show ?thesis
    using probes_only [OF p] probes_no_signing [OF p]
    by (auto simp: stage_defs Let_def newSignerCalls_append signedClaims_append
        split: option.splits sum.splits if_splits prod.splits)
qed

theorem signing_failures_witness:
  "Call_HashHex tx0 ''net'' \<in> set (snd (ServeHTTP world_hash_fails handler0 ''c''))
   \<and> HashHex world_hash_fails tx0 ''net'' = Inl ''hash''
   \<and> fst (ServeHTTP world_hash_fails handler0 ''c'') = serverError
   \<and> Call_NewSigner (JWK handler0) \<in> set (snd (ServeHTTP world_bad_key handler0 ''c''))
   \<and> NewSigner world_bad_key (JWK handler0) = Inl ''key''
   \<and> fst (ServeHTTP world_bad_key handler0 ''c'') = serverError
   \<and> Call_CompactSerialize ''ES256'' (tokenClaims handler0 tx0 ''GA'')
        \<in> set (snd (ServeHTTP world_sign_fails handler0 ''c''))
   \<and> CompactSerialize world_sign_fails ''ES256'' (tokenClaims handler0 tx0 ''GA'') = Inl ''sign''
   \<and> fst (ServeHTTP world_sign_fails handler0 ''c'') = serverError
   \<and> length (newSignerCalls (snd (ServeHTTP world_sign_fails handler0 ''c''))) \<le> 1
   \<and> length (signedClaims (snd (ServeHTTP world_sign_fails handler0 ''c''))) \<le> 1"
proof -
  have h1: "Call_HashHex tx0 ''net'' \<in> set (snd (ServeHTTP world_hash_fails handler0 ''c''))"
    by (simp add: run_hash_fails)
  have h2: "HashHex world_hash_fails tx0 ''net'' = Inl ''hash''"
    by (simp add: world_hash_fails_def)
  have k1: "Call_NewSigner (JWK handler0) \<in> set (snd (ServeHTTP world_bad_key handler0 ''c''))"
    by (simp add: run_bad_key jwk0)
  have k2: "NewSigner world_bad_key (JWK handler0) = Inl ''key''"
    by (simp add: world_bad_key_def)
  have s1: "Call_CompactSerialize ''ES256'' (tokenClaims handler0 tx0 ''GA'')
              \<in> set (snd (ServeHTTP world_sign_fails handler0 ''c''))"
    by (simp add: run_sign_fails claims0)
  have s2: "CompactSerialize world_sign_fails ''ES256'' (tokenClaims handler0 tx0 ''GA'') = Inl ''sign''"
    by (simp add: world_sign_fails_def)
  note a = signing_failures [OF surjective_pairing, of world_hash_fails handler0 "''c''"]
  note b = signing_failures [OF surjective_pairing, of world_bad_key handler0 "''c''"]
  note c = signing_failures [OF surjective_pairing, of world_sign_fails handler0 "''c''"]
  from a h1 h2 have "fst (ServeHTTP world_hash_fails handler0 ''c'') = serverError" by blast
  moreover from b k1 k2 have "fst (ServeHTTP world_bad_key handler0 ''c'') = serverError" by blast
  moreover from c s1 s2 have "fst (ServeHTTP world_sign_fails handler0 ''c'') = serverError" by blast
  moreover from c have "length (newSignerCalls (snd (ServeHTTP world_sign_fails handler0 ''c''))) \<le> 1"
    and "length (signedClaims (snd (ServeHTTP world_sign_fails handler0 ''c''))) \<le> 1" by blast+
  ultimately show ?thesis using h1 h2 k1 k2 s1 s2 by simp
qed

subsection \<open>C8: the same challenge submitted twice\<close>

text \<open>
  Claim C8. Take a run that issues a token, and a second run of the same handler on the
  same request in which the outside world behaves alike up to the bytes the signer
  produces (\<open>sameButSignatureBytes\<close>). Then the second run issues a token too and makes
  the same calls; in both runs the request decodes to the same \<open>req\<close> and the loop
  leaves the same variables \<open>v\<close>, with the same parsed challenge \<open>t\<close>; both tokens are
  serializations of one and the same claim set; its \<^verbatim>\<open>Subject\<close> is the client account
  of the challenge, and, as long as Go's \<^verbatim>\<open>int64\<close> seconds do not overflow, its
  \<^verbatim>\<open>IssuedAt\<close> is the minimum time bound of the challenge (nil when that is Go's zero
  time). The handler has no clock to read: nothing in the claims depends on when
  either run takes place. The token strings may differ, as they do in the witness.
\<close>

theorem resubmission:
  assumes first: "ServeHTTP env1 h r = (ok res1, cs)" and same: "sameButSignatureBytes env1 env2"
  shows "\<exists>res2 req v cs0 t c.
           ServeHTTP env2 h r = (ok res2, cs)
         \<and> Decode env1 r = Inr req \<and> Decode env2 r = Inr req
         \<and> range_SigningAddresses env1 h req (SigningAddresses h) (vars0, []) = (v, cs0)
         \<and> range_SigningAddresses env2 h req (SigningAddresses h) (vars0, []) = (v, cs0)
         \<and> tx v = Some t
         \<and> signedClaims cs = [c] \<and> carries env1 cs res1 c \<and> carries env2 cs res2 c
         \<and> Subject c = clientAccountID v
         \<and> (no_overflow (MinTime (Timebounds t)) (JWTExpiresIn h) \<longrightarrow>
              (MinTime (Timebounds t) \<noteq> - unixToInternal \<longrightarrow>
                 IssuedAt c = Some (MinTime (Timebounds t)))
            \<and> (MinTime (Timebounds t) = - unixToInternal \<longrightarrow> IssuedAt c = None))"
proof -
  from ServeHTTP_same [OF same first] obtain res2 where second: "ServeHTTP env2 h r = (ok res2, cs)" ..
  obtain req v cs0 s t cs3 jws where
    dec: "Decode env1 r = Inr req"
    and loop: "range_SigningAddresses env1 h req (SigningAddresses h) (vars0, []) = (v, cs0)"
    and sel: "signingAddress v = Some s"
    and t: "tx v = Some t"
    and ns: "NewSigner env1 (JWK h) = Inr jws"
    and ser: "CompactSerialize env1 jws (tokenClaims h t (clientAccountID v)) = Inr (Token res1)"
    and cs: "cs = cs3 @ [Call_NewSigner (JWK h), Call_CompactSerialize jws (tokenClaims h t (clientAccountID v))]"
    and n': "newSignerCalls cs3 = []"
    and n: "signedClaims cs3 = []"
    by (rule issued_path [OF first])
  let ?c = "tokenClaims h t (clientAccountID v)"
  from same have eqs: "Decode env2 = Decode env1" "ReadChallengeTx env2 = ReadChallengeTx env1"
    by (simp_all add: sameButSignatureBytes_def)
  have dec2: "Decode env2 r = Inr req" using dec eqs(1) by simp
  have loop2: "range_SigningAddresses env2 h req (SigningAddresses h) (vars0, []) = (v, cs0)"
    using loop loop_same [OF eqs(2)] by simp
  from issued_claims [OF second] obtain jws' c' cs3' where
    ser': "CompactSerialize env2 jws' c' = Inr (Token res2)"
    and cs': "cs = cs3' @ [Call_NewSigner (JWK h), Call_CompactSerialize jws' c']"
    and n2: "signedClaims cs3' = []" .
  from cs cs' have "jws' = jws" "c' = ?c" by simp_all
  with ser' have ser2: "CompactSerialize env2 jws ?c = Inr (Token res2)" by simp
  have one: "signedClaims cs = [?c]" using cs n by (simp add: signedClaims_append)
  have c1: "carries env1 cs res1 ?c" using cs ser by (simp add: carries_def)
  have c2: "carries env2 cs res2 ?c" using cs ser2 by (simp add: carries_def)
  have sub: "Subject ?c = clientAccountID v" by (simp add: tokenClaims_def Let_def)
  have iat: "no_overflow (MinTime (Timebounds t)) (JWTExpiresIn h) \<longrightarrow>
              (MinTime (Timebounds t) \<noteq> - unixToInternal \<longrightarrow>
                 IssuedAt ?c = Some (MinTime (Timebounds t)))
            \<and> (MinTime (Timebounds t) = - unixToInternal \<longrightarrow> IssuedAt ?c = None)"
    by (simp add: claims_times)
  from second dec dec2 loop loop2 t one c1 c2 sub iat show ?thesis by blast
qed

theorem resubmission_witness:
  "ServeHTTP world0 handler0 ''c'' = (ok \<lparr>Token = ''ES256GA''\<rparr>, snd (ServeHTTP world0 handler0 ''c''))
   \<and> sameButSignatureBytes world0 world_other_bytes
   \<and> range_SigningAddresses world0 handler0 \<lparr>Transaction = ''c''\<rparr> (SigningAddresses handler0) (vars0, []) =
        (\<lparr>tx = Some tx0, clientAccountID = ''GA'', signingAddress = Some ''S2'',
          homeDomain = ''home'', err = None\<rparr>,
         [Call_ReadChallengeTx ''c'' ''S1'' ''net'' ''auth'' [''home''],
          Call_ReadChallengeTx ''c'' ''S2'' ''net'' ''auth'' [''home'']])
   \<and> MinTime (Timebounds tx0) = 1000
   \<and> no_overflow (MinTime (Timebounds tx0)) (JWTExpiresIn handler0)
   \<and> (\<exists>res2 c. ServeHTTP world_other_bytes handler0 ''c'' = (ok res2, snd (ServeHTTP world0 handler0 ''c''))
         \<and> Token res2 = ''ES256GA2''
         \<and> signedClaims (snd (ServeHTTP world0 handler0 ''c'')) = [c]
         \<and> carries world0 (snd (ServeHTTP world0 handler0 ''c'')) \<lparr>Token = ''ES256GA''\<rparr> c
         \<and> carries world_other_bytes (snd (ServeHTTP world0 handler0 ''c'')) res2 c
         \<and> Subject c = ''GA'' \<and> IssuedAt c = Some 1000)"
proof -
  let ?cs = "snd (ServeHTTP world0 handler0 ''c'')"
  have run: "ServeHTTP world0 handler0 ''c'' = (ok \<lparr>Token = ''ES256GA''\<rparr>, ?cs)"
    by (simp add: run_ok)
  have same: "sameButSignatureBytes world0 world_other_bytes"
    by (simp add: sameButSignatureBytes_def world_other_bytes_def world0_def)
  have m: "MinTime (Timebounds tx0) = 1000" by (simp add: tx0_def)
  have range: "no_overflow (MinTime (Timebounds tx0)) (JWTExpiresIn handler0)"
    by (simp add: no_overflow_def int64_def tx0_def handler0_def unixToInternal_def)
  from resubmission [OF run same] obtain res2 req v cs0 t c where
    r2: "ServeHTTP world_other_bytes handler0 ''c'' = (ok res2, ?cs)"
    and a: "Decode world0 ''c'' = Inr req"
      "range_SigningAddresses world0 handler0 req (SigningAddresses handler0) (vars0, []) = (v, cs0)"
      "tx v = Some t"
    and c: "signedClaims ?cs = [c]"
      "carries world0 ?cs \<lparr>Token = ''ES256GA''\<rparr> c"
      "carries world_other_bytes ?cs res2 c"
    and sub: "Subject c = clientAccountID v"
    and iat: "no_overflow (MinTime (Timebounds t)) (JWTExpiresIn handler0) \<longrightarrow>
              (MinTime (Timebounds t) \<noteq> - unixToInternal \<longrightarrow>
                 IssuedAt c = Some (MinTime (Timebounds t)))
            \<and> (MinTime (Timebounds t) = - unixToInternal \<longrightarrow> IssuedAt c = None)"
    by blast
  from a selected0 have t: "t = tx0" and v: "clientAccountID v = ''GA''" by auto
  from iat range t m have i: "IssuedAt c = Some 1000" by (simp add: unixToInternal_def)
  from r2 run_other_bytes have tok: "Token res2 = ''ES256GA2''" by auto
  from r2 tok c sub v i
  have ex: "\<exists>res2 c. ServeHTTP world_other_bytes handler0 ''c'' = (ok res2, ?cs)
         \<and> Token res2 = ''ES256GA2''
         \<and> signedClaims ?cs = [c]
         \<and> carries world0 ?cs \<lparr>Token = ''ES256GA''\<rparr> c
         \<and> carries world_other_bytes ?cs res2 c
         \<and> Subject c = ''GA'' \<and> IssuedAt c = Some 1000"
    by (intro exI [of _ res2] exI [of _ c]) simp
  from run same selected0(2) m range ex show ?thesis by (intro conjI)
qed

subsection \<open>C9: the parsed transaction is not nil\<close>

text \<open>
  Claim C9. Let the parser keep its contract for the signing addresses of the handler
  (\<open>parseContract\<close>: no error means a transaction). When the loop ends with a signing
  address \<open>s\<close>, the challenge validates against \<open>s\<close>, the variable \<^verbatim>\<open>tx\<close> holds what the
  probe of \<open>s\<close> returned (the loop assigned both in the same iteration) and is not nil.
  The handler then never dereferences a nil transaction: its response is never \<open>panic\<close>,
  and the transaction it hashes, and reads the time bounds of, is the one in \<^verbatim>\<open>tx\<close>.
\<close>

theorem parsed_transaction_not_nil:
  assumes dec: "Decode env r = Inr req"
    and contract: "parseContract env h req"
    and loop: "range_SigningAddresses env h req (SigningAddresses h) (vars0, []) = (v, cs0)"
  shows "(\<forall>s. signingAddress v = Some s \<longrightarrow>
            validates env h req s \<and> tx v = rc_tx (parsed env h req s) \<and> tx v \<noteq> None)
       \<and> fst (ServeHTTP env h r) \<noteq> panic
       \<and> (\<forall>t np. Call_HashHex t np \<in> set (snd (ServeHTTP env h r)) \<longrightarrow> tx v = Some t)"
proof (cases "find (validates env h req) (SigningAddresses h)")
  case None
  from loop_none [OF None, of vars0 "[]"] loop have "signingAddress v = None"
    by (simp add: vars0_def)
  moreover from ServeHTTP_none [OF dec None]
  have "ServeHTTP env h r = (badRequest, map (probe h req) (SigningAddresses h))" .
  ultimately show ?thesis by (auto simp: probe_def)
next
  case (Some s)
  then have mem: "s \<in> set (SigningAddresses h)" and ok: "validates env h req s"
    by (auto simp: find_Some_iff)
  with contract have nn: "rc_tx (parsed env h req s) \<noteq> None"
    by (auto simp: parseContract_def list_all_iff)
  from loop_some [OF Some, of vars0 "[]"] loop
  have v: "v = \<lparr>tx = rc_tx (parsed env h req s), clientAccountID = rc_clientAccountID (parsed env h req s),
            signingAddress = Some s, homeDomain = rc_homeDomain (parsed env h req s), err = None\<rparr>"
    by simp
  from loop_probes [OF loop] have p: "list_all isProbe cs0" .
  from dec loop have run: "ServeHTTP env h r = afterLoop env h req v cs0"
    by (simp add: ServeHTTP_def)
  from nn obtain t where t: "rc_tx (parsed env h req s) = Some t" by auto
  have "fst (afterLoop env h req v cs0) \<noteq> panic"
    using fromLookup_no_panic v t by (auto simp: afterLoop_def split: sum.splits)
  moreover have "\<forall>t' np. Call_HashHex t' np \<in> set (snd (afterLoop env h req v cs0)) \<longrightarrow> tx v = Some t'"
  proof (intro allI impI)
    fix t' np assume m: "Call_HashHex t' np \<in> set (snd (afterLoop env h req v cs0))"
    show "tx v = Some t'"
    proof (cases "homeDomain v = []")
      case True
      with m v probes_only(1) [OF p] show ?thesis by (simp add: afterLoop_def)
    next
      case False
      show ?thesis
      proof (cases "HashHex env t (NetworkPassphrase h)")
        case (Inl e)
        with m v t False probes_only(1) [OF p] show ?thesis by (auto simp: afterLoop_def)
      next
        case (Inr hash)
        obtain resp cs where fl: "fromLookup env h req s t (clientAccountID v)
            (cs0 @ [Call_HashHex t (NetworkPassphrase h), Call_AccountDetail (clientAccountID v)]) = (resp, cs)"
          by (cases "fromLookup env h req s t (clientAccountID v)
            (cs0 @ [Call_HashHex t (NetworkPassphrase h), Call_AccountDetail (clientAccountID v)])")
        from fromLookup_calls [OF fl, of "clientAccountID v" t' np] m v t False Inr fl
          probes_only(1) [OF p, of t' np]
        show ?thesis by (auto simp: afterLoop_def)
      qed
    qed
  qed
  ultimately show ?thesis using v ok nn run by simp
qed

theorem parsed_transaction_not_nil_witness:
  "Decode world0 ''c'' = Inr \<lparr>Transaction = ''c''\<rparr>
   \<and> parseContract world0 handler0 \<lparr>Transaction = ''c''\<rparr>
   \<and> signingAddress (fst (range_SigningAddresses world0 handler0 \<lparr>Transaction = ''c''\<rparr>
                            (SigningAddresses handler0) (vars0, []))) = Some ''S2''
   \<and> tx (fst (range_SigningAddresses world0 handler0 \<lparr>Transaction = ''c''\<rparr>
                  (SigningAddresses handler0) (vars0, []))) = Some tx0
   \<and> fst (ServeHTTP world0 handler0 ''c'') \<noteq> panic"
proof -
  let ?req = "\<lparr>Transaction = ''c''\<rparr>"
  have dec: "Decode world0 ''c'' = Inr ?req" by (simp add: world0_def)
  have contract: "parseContract world0 handler0 ?req"
    by (simp add: parseContract_def validates_def parsed_def world0_def handler0_def parse0_def noparse_def)
  have loop: "range_SigningAddresses world0 handler0 ?req (SigningAddresses handler0) (vars0, []) =
     (fst (range_SigningAddresses world0 handler0 ?req (SigningAddresses handler0) (vars0, [])),
      snd (range_SigningAddresses world0 handler0 ?req (SigningAddresses handler0) (vars0, [])))" by simp
  have sel: "signingAddress (fst (range_SigningAddresses world0 handler0 ?req
                            (SigningAddresses handler0) (vars0, []))) = Some ''S2''"
    by (simp add: world0_def handler0_def vars0_def parse0_def noparse_def Let_def)
  have p: "rc_tx (parsed world0 handler0 ?req ''S2'') = Some tx0"
    by (simp add: world0_validates parse0_def)
  from parsed_transaction_not_nil [OF dec contract loop] sel p dec contract
  show ?thesis by simp
qed

subsection \<open>C10: the flag and existing accounts\<close>

text \<open>
  Claim C10. When the handler looked the client account up and the ledger returned the
  account, the run with the flag \<^verbatim>\<open>AllowAccountsThatDoNotExist\<close> set to any value \<open>b\<close>
  renders the same response and makes the same calls, the signed claims among them.
\<close>

theorem flag_irrelevant_for_existing_account:
  assumes run: "ServeHTTP env h r = (resp, cs)"
    and looked: "Call_AccountDetail a \<in> set cs"
    and found: "AccountDetail env a = Inr acct"
  shows "ServeHTTP env (h\<lparr>AllowAccountsThatDoNotExist := b\<rparr>) r = (resp, cs)"
proof -
  let ?h = "h\<lparr>AllowAccountsThatDoNotExist := b\<rparr>"
  obtain req v cs0 s t hash where dec: "Decode env r = Inr req"
    and l: "range_SigningAddresses env h req (SigningAddresses h) (vars0, []) = (v, cs0)"
    and p: "list_all isProbe cs0"
    and v: "signingAddress v = Some s" "homeDomain v \<noteq> []" "tx v = Some t" "clientAccountID v = a"
    and hh: "HashHex env t (NetworkPassphrase h) = Inr hash"
    and fl: "fromLookup env h req s t a (cs0 @ [Call_HashHex t (NetworkPassphrase h), Call_AccountDetail a])
       = (resp, cs)"
    by (rule reaches_lookup [OF run looked])
  have "fromLookup env ?h req s t a (cs0 @ [Call_HashHex t (NetworkPassphrase h), Call_AccountDetail a])
      = fromLookup env h req s t a (cs0 @ [Call_HashHex t (NetworkPassphrase h), Call_AccountDetail a])"
    using found
    by (simp add: fromLookup_def lookupAccount_def verifySigners_def issueToken_flag Let_def
        split: sum.splits)
  with fl dec l v hh show ?thesis
    by (simp add: ServeHTTP_def afterLoop_def loop_flag)
qed


theorem flag_irrelevant_for_existing_account_witness:
  "Call_AccountDetail ''GA'' \<in> set (snd (ServeHTTP world0 handler0 ''c''))
   \<and> AccountDetail world0 ''GA'' = Inr account0
   \<and> ServeHTTP world0 (handler0\<lparr>AllowAccountsThatDoNotExist := True\<rparr>) ''c'' = ServeHTTP world0 handler0 ''c''"
proof -
  have looked: "Call_AccountDetail ''GA'' \<in> set (snd (ServeHTTP world0 handler0 ''c''))"
    by (simp add: run_ok)
  have found: "AccountDetail world0 ''GA'' = Inr account0" by (simp add: world0_def)
  from flag_irrelevant_for_existing_account [OF surjective_pairing looked found, of True] looked found
  show ?thesis by simp
qed

section \<open>Further properties\<close>

text \<open>
  The stages of a run follow each other in the order of the source: the probes of the
  signing addresses first, then the hash, the account lookup, the verification, the
  construction of the signer and the serialization of the claims. No verification is
  attempted before the signing address is selected.
\<close>

theorem stages_in_order: "sorted (map stage (snd (ServeHTTP env h r)))"
proof (cases "Decode env r")
  case (Inl e)
  then show ?thesis by (simp add: ServeHTTP_def)
next
  case (Inr req)
  from ServeHTTP_decoded [OF Inr, of h] obtain v cs0
    where a: "ServeHTTP env h r = afterLoop env h req v cs0" and p: "list_all isProbe cs0" by blast
  have "\<exists>rest. snd (afterLoop env h req v cs0) = cs0 @ rest \<and> sorted (map stage rest)"
    by (auto simp: stage_defs Let_def split: option.splits sum.splits if_splits prod.splits)
  then show ?thesis using a sorted_after_probes [OF p] by auto
qed

text \<open>
  A request that cannot be decoded is answered with \<open>badRequest\<close> before anything is
  called (lines 44-48).
\<close>

theorem undecodable_request:
  "Decode env r = Inl e \<Longrightarrow> ServeHTTP env h r = (badRequest, [])"
  by (simp add: ServeHTTP_def)

theorem undecodable_request_witness:
  "Decode world0 [] = Inl ''empty'' \<and> ServeHTTP world0 handler0 [] = (badRequest, [])"
proof -
  have d: "Decode world0 [] = Inl ''empty''" by (simp add: world0_def)
  from undecodable_request [OF d] d show ?thesis by simp
qed

end
